theory Spec2Isabelle
  imports Complex_Main "HOL-Library.AList" "HOL-Library.Log_Nat"
begin

section \<open>Shared constants and Python values\<close>

text \<open>
  Every script of \<^verbatim>\<open>orchestrator/\<close> declares \<^verbatim>\<open>SCALE = 1_000_000\<close>
  (the fixed-point scale of the on-chain stores) and \<^verbatim>\<open>NETWORK_ID = "5777"\<close>.
  Python's unbounded integers are \<^typ>\<open>int\<close>. A Python float is a double; the finite
  doubles are real numbers, and a float value is modelled by the \<^typ>\<open>real\<close> it
  denotes. The product in the fixed-point conversion is the double product: the exact
  product rounded to the nearest double. The quotient \<^verbatim>\<open>scaled / SCALE\<close> of the
  loader is kept exact; what is proved of the loader (its reads, the shape of its
  result, the range test on a descaled value) does not depend on the last bit of the
  quotient.
\<close>

definition SCALE :: int where
  "SCALE = 1000000"

definition NETWORK_ID :: string where
  "NETWORK_ID = ''5777''"

text \<open>
  The exceptions a run can end with. The first five are the ones the scripts or the
  interpreter raise; the last six are the error kinds of the specification's taxonomy,
  which only the Bayesian engine (a collaborator of these scripts) could raise.
\<close>

datatype error =
    FileNotFoundError
  | RuntimeError
  | IndexError
  | KeyError
  | SystemExit
  | ParameterRangeError
  | TopologyMismatchError
  | UnknownVariableError
  | DegenerateEvidenceError
  | CommitVerificationError
  | ExternalStoreError

section \<open>Fixed-point conversion of a posterior\<close>

text \<open>
  \<^verbatim>\<open>round(x)\<close> on a float, with no second argument, returns the nearest integer and
  resolves a tie towards the even neighbour (Python 3). \<^verbatim>\<open>int(...)\<close> around it is the
  identity on that integer.
\<close>

definition py_round :: "real \<Rightarrow> int" where
  "py_round x =
     (let f = \<lfloor>x\<rfloor>; d = x - real_of_int f
      in if d < 1 / 2 then f
         else if 1 / 2 < d then f + 1
         else if even f then f else f + 1)"

text \<open>
  Doubles. \<open>binade x\<close> is the exponent \<open>k\<close> with \<open>2^k \<le> |x| < 2^(k+1)\<close>, computed
  from the bit length of the integer part of \<open>|x|\<close> when \<open>|x| \<ge> 1\<close> and of its
  reciprocal otherwise. A double has a 53-bit significand, so the doubles around \<open>x\<close> are
  the multiples of \<open>2^(k-52)\<close>, and of \<open>2^-1074\<close> in the subnormal range.
  \<open>round_to_double x\<close> is the multiple nearest to \<open>x\<close>, a tie going to the even
  significand: IEEE 754 round-to-nearest-even, which is how the product of two doubles is
  formed. A result beyond the largest double (a posterior above \<open>10^302\<close>) is infinite
  in Python and \<^verbatim>\<open>round\<close> raises on it; posteriors are nowhere near, and the model has no
  infinity.
\<close>

definition binade :: "real \<Rightarrow> int" where
  "binade x =
     (if 1 \<le> \<bar>x\<bar> then bitlen \<lfloor>\<bar>x\<bar>\<rfloor> - 1 else - bitlen (\<lceil>1 / \<bar>x\<bar>\<rceil> - 1))"

definition pow2 :: "int \<Rightarrow> real" where
  "pow2 q = (if 0 \<le> q then 2 ^ nat q else 1 / 2 ^ nat (- q))"

definition round_to_double :: "real \<Rightarrow> real" where
  "round_to_double x =
     (if x = 0 then 0
      else let q = max (binade x - 52) (- 1074)
           in real_of_int (py_round (x / pow2 q)) * pow2 q)"

definition float_mul :: "real \<Rightarrow> real \<Rightarrow> real" where
  "float_mul a b = round_to_double (a * b)"

text \<open>
  \<^verbatim>\<open>scaled_pph = int(round(float(posterior["PPH"]) * SCALE))\<close>, the same expression for
  \<^verbatim>\<open>PPR\<close>, in \<^verbatim>\<open>dynamic_claim_flow.py\<close> (108-109), \<^verbatim>\<open>claim_lifecycle_demo.py\<close>
  (182-183), \<^verbatim>\<open>run_inference_and_log.py\<close> (73-74) and \<^verbatim>\<open>run_experiment_grid.py\<close>
  (127-128). \<^verbatim>\<open>SCALE\<close> is converted to the double \<open>1000000.0\<close>, the product is a double
  product, and \<^verbatim>\<open>round\<close> is applied to that double. Nothing follows before the value is
  submitted.
\<close>

definition scale_posterior :: "real \<Rightarrow> int" where
  "scale_posterior p = py_round (float_mul p (real_of_int SCALE))"

text \<open>
  The conversion as the specification words it, for comparison with the code: the same
  double product (section 4.2: double-precision arithmetic throughout, no rounding before
  the conversion), rounded with ties away from zero, then clamped into \<open>[0, SCALE]\<close>.
\<close>

definition spec_round_half_away :: "real \<Rightarrow> int" where
  "spec_round_half_away x = (if 0 \<le> x then \<lfloor>x + 1 / 2\<rfloor> else - \<lfloor>- x + 1 / 2\<rfloor>)"

definition spec_clamp :: "int \<Rightarrow> int" where
  "spec_clamp n = max 0 (min SCALE n)"

definition spec_to_fixed :: "real \<Rightarrow> int" where
  "spec_to_fixed p = spec_clamp (spec_round_half_away (float_mul p (real_of_int SCALE)))"

section \<open>Artifact discovery and the web3 handle\<close>

text \<open>
  \<^verbatim>\<open>_find_build_artifact(name)\<close> returns the parsed JSON of the first of
  \<^verbatim>\<open>deployment/build/<name>.json\<close> and \<^verbatim>\<open>deployments/build/<name>.json\<close> that exists
  and raises \<^verbatim>\<open>FileNotFoundError\<close> otherwise. The file system is a partial map from
  paths to parsed artifacts. Of an artifact the scripts read \<^verbatim>\<open>networks\<close> (network id
  to deployed address; a missing key reads as the empty dict) and \<^verbatim>\<open>abi\<close>.
\<close>

record artifact =
  networks :: "(string \<times> string) list"
  abi :: string

type_synonym filesystem = "string \<Rightarrow> artifact option"

fun first_existing :: "filesystem \<Rightarrow> string list \<Rightarrow> error + artifact" where
  "first_existing fs [] = Inl FileNotFoundError"
| "first_existing fs (path # candidates) =
     (case fs path of Some a \<Rightarrow> Inr a | None \<Rightarrow> first_existing fs candidates)"

definition find_build_artifact :: "filesystem \<Rightarrow> string \<Rightarrow> error + artifact" where
  "find_build_artifact fs name =
     first_existing fs
       [''deployment/build/'' @ name @ ''.json'', ''deployments/build/'' @ name @ ''.json'']"

text \<open>
  The \<^verbatim>\<open>CPTStore\<close> contract as the loader sees it: three view functions, each call
  returning the stored scaled integer. \<^verbatim>\<open>w3\<close> gives the connection state, the node's
  accounts and, for an address, the contract deployed there.
\<close>

record cpt_store =
  priorPPH :: int
  priorPPR :: int
  getEvidenceTrueCPT :: "int \<Rightarrow> int \<Rightarrow> int \<Rightarrow> int"

record web3 =
  is_connected :: bool
  accounts :: "string list"
  cpt_store_at :: "string \<Rightarrow> cpt_store"

section \<open>The loader: \<^verbatim>\<open>bn_from_chain.load_priors_and_cpts_from_chain\<close>\<close>

text \<open>
  Python dicts are association lists in insertion order; \<^const>\<open>AList.update\<close> is the
  assignment \<^verbatim>\<open>d[k] = v\<close> (replace in place, or append a new key) and \<^const>\<open>map_of\<close>
  the lookup. The loader's result is extended by the list of contract reads it made, in
  call order, so that the reads can be counted.
\<close>

type_synonym cpt_table = "((int \<times> int) \<times> real) list"
type_synonym cpts = "(string \<times> cpt_table) list"
type_synonym priors = "(string \<times> real) list"

datatype store_read =
    Call_priorPPH
  | Call_priorPPR
  | Call_getEvidenceTrueCPT int int int

definition descale :: "int \<Rightarrow> real" where
  "descale scaled = real_of_int scaled / real_of_int SCALE"

definition idx_to_name :: "(int \<times> string) list" where
  "idx_to_name = [(0, ''GPS''), (1, ''PC''), (2, ''PMD''), (3, ''PR'')]"

text \<open>\<^verbatim>\<open>for ppr in (0, 1): scaled = ...getEvidenceTrueCPT(ev_idx, pph, ppr).call();
  table[(pph, ppr)] = scaled / SCALE\<close>\<close>

fun loop_ppr ::
  "cpt_store \<Rightarrow> int \<Rightarrow> int \<Rightarrow> int list \<Rightarrow> cpt_table \<times> store_read list
     \<Rightarrow> cpt_table \<times> store_read list" where
  "loop_ppr store ev_idx pph [] st = st"
| "loop_ppr store ev_idx pph (ppr # rest) (table, reads) =
     (let scaled = getEvidenceTrueCPT store ev_idx pph ppr
      in loop_ppr store ev_idx pph rest
           (AList.update (pph, ppr) (descale scaled) table,
            reads @ [Call_getEvidenceTrueCPT ev_idx pph ppr]))"

text \<open>\<^verbatim>\<open>for pph in (0, 1): for ppr in (0, 1): ...\<close>\<close>

fun loop_pph ::
  "cpt_store \<Rightarrow> int \<Rightarrow> int list \<Rightarrow> cpt_table \<times> store_read list
     \<Rightarrow> cpt_table \<times> store_read list" where
  "loop_pph store ev_idx [] st = st"
| "loop_pph store ev_idx (pph # rest) st =
     loop_pph store ev_idx rest (loop_ppr store ev_idx pph [0, 1] st)"

text \<open>
  \<^verbatim>\<open>for ev_idx, name in idx_to_name.items(): table = cpts[name]; ...\<close>. \<^verbatim>\<open>table\<close> is the
  dict stored under \<^verbatim>\<open>name\<close>, so filling it fills \<^verbatim>\<open>cpts[name]\<close>: the filled table is
  written back.
\<close>

fun loop_ev_idx ::
  "cpt_store \<Rightarrow> (int \<times> string) list \<Rightarrow> cpts \<times> store_read list
     \<Rightarrow> error + cpts \<times> store_read list" where
  "loop_ev_idx store [] st = Inr st"
| "loop_ev_idx store ((ev_idx, name) # rest) (cpts, reads) =
     (case map_of cpts name of
        None \<Rightarrow> Inl KeyError
      | Some table \<Rightarrow>
          (case loop_pph store ev_idx [0, 1] (table, reads) of
             (table', reads') \<Rightarrow>
               loop_ev_idx store rest (AList.update name table' cpts, reads')))"

definition load_priors_and_cpts_from_chain ::
  "filesystem \<Rightarrow> web3 \<Rightarrow> error + priors \<times> cpts \<times> store_read list" where
  "load_priors_and_cpts_from_chain fs w3 =
     (case find_build_artifact fs ''CPTStore'' of
        Inl e \<Rightarrow> Inl e
      | Inr artifact \<Rightarrow>
          (case map_of (networks artifact) NETWORK_ID of
             None \<Rightarrow> Inl RuntimeError
           | Some address \<Rightarrow>
               (let store = cpt_store_at w3 address;
                    prior_pph = descale (priorPPH store);
                    prior_ppr = descale (priorPPR store);
                    priors = [(''PPH'', prior_pph), (''PPR'', prior_ppr)];
                    cpts = fold (\<lambda>name d. AList.update name [] d) (map snd idx_to_name) []
                in case loop_ev_idx store idx_to_name (cpts, [Call_priorPPH, Call_priorPPR]) of
                     Inl e \<Rightarrow> Inl e
                   | Inr (cpts', reads) \<Rightarrow> Inr (priors, cpts', reads))))"

text \<open>
  The Bayesian engine \<^verbatim>\<open>offChain.bn_oracle.bn_oracle.BNOracle\<close> is a collaborator of
  these scripts: its constructor takes the loaded priors and tables, and its \<^verbatim>\<open>infer\<close>
  method maps an evidence dict to a posterior with the components \<^verbatim>\<open>PPH\<close> and
  \<^verbatim>\<open>PPR\<close>, or raises. Both are parameters of the model; an engine is identified with
  its \<^verbatim>\<open>infer\<close> method.
\<close>

record posterior =
  PPH :: real
  PPR :: real

type_synonym evidence = "(string \<times> int) list"
type_synonym bn = "evidence \<Rightarrow> error + posterior"

definition build_bn_from_chain ::
  "filesystem \<Rightarrow> web3 \<Rightarrow> (priors \<Rightarrow> cpts \<Rightarrow> bn)
     \<Rightarrow> error + bn \<times> priors \<times> cpts \<times> store_read list" where
  "build_bn_from_chain fs w3 BNOracle =
     (case load_priors_and_cpts_from_chain fs w3 of
        Inl e \<Rightarrow> Inl e
      | Inr (priors, cpts, reads) \<Rightarrow> Inr (BNOracle priors cpts, priors, cpts, reads))"

section \<open>Staged evidence: \<^verbatim>\<open>dynamic_claim_flow\<close>\<close>

definition EVIDENCE_NAMES :: "string list" where
  "EVIDENCE_NAMES = [''GPS'', ''PC'', ''PMD'', ''PR'']"

text \<open>
  A row of \<^verbatim>\<open>EvidenceRegistry.evidences\<close> is the tuple
  \<^verbatim>\<open>(id, claimId, evidenceIndex, value, timestamp, reporter)\<close>; the registry answers
  \<^verbatim>\<open>getEvidenceIdsForClaim\<close> with the ids of a claim's rows in the order they were added.
\<close>

record evidence_row =
  row_id :: int
  row_claimId :: int
  evidenceIndex :: int
  row_value :: int
  row_timestamp :: int
  reporter :: string

record evidence_registry =
  getEvidenceIdsForClaim :: "int \<Rightarrow> int list"
  evidences :: "int \<Rightarrow> evidence_row"

text \<open>
  Python's \<^verbatim>\<open>xs[i]\<close>: a negative index counts from the end, an index outside
  \<open>[-len, len)\<close> raises \<^verbatim>\<open>IndexError\<close>.
\<close>

definition list_getitem :: "'a list \<Rightarrow> int \<Rightarrow> error + 'a" where
  "list_getitem xs i =
     (if 0 \<le> i \<and> i < int (length xs) then Inr (xs ! nat i)
      else if i < 0 \<and> - int (length xs) \<le> i then Inr (xs ! nat (int (length xs) + i))
      else Inl IndexError)"

text \<open>
  \<^verbatim>\<open>for eid in ids: ev = ...evidences(eid).call(); idx = int(evidence_index);
  if idx < len(EVIDENCE_NAMES): name = EVIDENCE_NAMES[idx]; evidence_values[name] = int(value)\<close>.
  The \<^verbatim>\<open>if\<close> has no \<^verbatim>\<open>else\<close>.
\<close>

fun loop_eid :: "evidence_registry \<Rightarrow> int list \<Rightarrow> evidence \<Rightarrow> error + evidence" where
  "loop_eid reg [] evidence_values = Inr evidence_values"
| "loop_eid reg (eid # ids) evidence_values =
     (let ev = evidences reg eid; idx = evidenceIndex ev
      in if idx < int (length EVIDENCE_NAMES)
         then (case list_getitem EVIDENCE_NAMES idx of
                 Inl e \<Rightarrow> Inl e
               | Inr name \<Rightarrow>
                   loop_eid reg ids (AList.update name (row_value ev) evidence_values))
         else loop_eid reg ids evidence_values)"

definition fetch_evidence_for_claim :: "evidence_registry \<Rightarrow> int \<Rightarrow> error + evidence" where
  "fetch_evidence_for_claim reg claim_id =
     loop_eid reg (getEvidenceIdsForClaim reg claim_id) []"

text \<open>
  A row of \<^verbatim>\<open>ClaimRegistry.claims\<close> as \<^verbatim>\<open>_compute_and_commit_posterior\<close> unpacks it:
  \<^verbatim>\<open>(id, physician, openedAt, lastUpdatedAt, bnInstanceId, posteriorPPH, posteriorPPR, closed)\<close>.
\<close>

record claim_row =
  cid :: int
  physician :: string
  opened_at :: int
  updated_at :: int
  bn_id :: int
  posteriorPPH :: int
  posteriorPPR :: int
  closed :: bool

text \<open>
  The chain state \<open>'w\<close> is opaque to the scripts. \<^verbatim>\<open>controller.functions.submitInference(
  claim_id, scaled_pph, scaled_ppr).transact({"from": oracle})\<close> followed by
  \<^verbatim>\<open>wait_for_transaction_receipt\<close> is a state transformer; \<^verbatim>\<open>claim_registry.functions
  .claims(claim_id).call()\<close> is a view of the state. Both are parameters. The result of
  the sync step is extended by the calls it made to the engine and the contracts, in
  order, with what the read-back returned.
\<close>

type_synonym 'w controller = "int \<Rightarrow> int \<Rightarrow> int \<Rightarrow> string \<Rightarrow> 'w \<Rightarrow> 'w"
type_synonym 'w claim_registry = "int \<Rightarrow> 'w \<Rightarrow> claim_row"

datatype sync_call =
    Infer evidence
  | SubmitInference int int int string
  | ReadClaim int claim_row

definition compute_and_commit_posterior ::
  "web3 \<Rightarrow> bn \<Rightarrow> 'w controller \<Rightarrow> 'w claim_registry \<Rightarrow> evidence_registry \<Rightarrow> int \<Rightarrow> 'w
     \<Rightarrow> error + 'w \<times> sync_call list" where
  "compute_and_commit_posterior w3 bn controller claim_registry evidence_registry claim_id w =
     (case fetch_evidence_for_claim evidence_registry claim_id of
        Inl e \<Rightarrow> Inl e
      | Inr evidence \<Rightarrow>
          if evidence = [] then Inr (w, [])
          else
            (case bn evidence of
               Inl e \<Rightarrow> Inl e
             | Inr posterior \<Rightarrow>
                 (let scaled_pph = scale_posterior (PPH posterior);
                      scaled_ppr = scale_posterior (PPR posterior)
                  in case accounts w3 of
                       [] \<Rightarrow> Inl IndexError
                     | oracle # _ \<Rightarrow>
                         (let w' = controller claim_id scaled_pph scaled_ppr oracle w;
                              claim_row = claim_registry claim_id w'
                          in Inr (w', [Infer evidence,
                                       SubmitInference claim_id scaled_pph scaled_ppr oracle,
                                       ReadClaim claim_id claim_row])))))"

text \<open>
  What a trace of the sync step submitted, and what its read-back found in the two
  posterior fields of the row.
\<close>

fun submitted :: "sync_call list \<Rightarrow> (int \<times> int) list" where
  "submitted [] = []"
| "submitted (SubmitInference c a b sender # calls) = (a, b) # submitted calls"
| "submitted (other # calls) = submitted calls"

fun read_back :: "sync_call list \<Rightarrow> (int \<times> int) list" where
  "read_back [] = []"
| "read_back (ReadClaim c row # calls) = (posteriorPPH row, posteriorPPR row) # read_back calls"
| "read_back (other # calls) = read_back calls"

text \<open>
  The value of the last row, in list order, that carries the variable index \<open>i\<close>.
\<close>

definition last_value :: "evidence_registry \<Rightarrow> int list \<Rightarrow> int \<Rightarrow> int option" where
  "last_value reg ids i =
     (case filter (\<lambda>eid. evidenceIndex (evidences reg eid) = i) ids of
        [] \<Rightarrow> None
      | e # es \<Rightarrow> Some (row_value (evidences reg (last (e # es)))))"

section \<open>The claim store of the specification\<close>

text \<open>
  Modelled from the spec: the claim store. The \<^verbatim>\<open>ClaimRegistry\<close> and
  \<^verbatim>\<open>OracleController\<close> contracts are not among the sources; section 6 of the
  specification gives their interface: \<^verbatim>\<open>getClaim(claimId)\<close> returns the row with the
  two scaled posterior fields and further fields opaque to the core, and
  \<^verbatim>\<open>submitPosterior(claimId, scaledPPH, scaledPPR)\<close> commits the pair so that a later
  read reflects it. The store is a map from claim ids to rows. How a submission maintains
  the opaque fields is left open: \<open>touch\<close> is any function on rows.
\<close>

type_synonym claim_store = "int \<Rightarrow> claim_row"

definition spec_submitPosterior :: "(claim_row \<Rightarrow> claim_row) \<Rightarrow> claim_store controller" where
  "spec_submitPosterior touch claim_id scaledPPH scaledPPR sender store =
     store(claim_id := (touch (store claim_id))
       \<lparr>posteriorPPH := scaledPPH, posteriorPPR := scaledPPR\<rparr>)"

definition spec_getClaim :: "claim_store claim_registry" where
  "spec_getClaim claim_id store = store claim_id"

section \<open>The single-shot driver: \<^verbatim>\<open>run_inference_and_log\<close>\<close>

text \<open>
  \<^verbatim>\<open>parse_args\<close> declares four options, each \<^verbatim>\<open>type=int, choices=[0, 1], default=0\<close>.
  The command line is represented by what \<^verbatim>\<open>argparse\<close> extracts from it before the
  checks: for each option the integer given for it, if the option occurs. A value outside
  \<^verbatim>\<open>choices\<close> ends the run (\<^verbatim>\<open>SystemExit\<close>); an absent option takes the default.
\<close>

record cli =
  given_gps :: "int option"
  given_pc :: "int option"
  given_pmd :: "int option"
  given_pr :: "int option"

record namespace =
  gps :: int
  pc :: int
  pmd :: int
  pr :: int

definition add_argument :: "int list \<Rightarrow> int \<Rightarrow> int option \<Rightarrow> error + int" where
  "add_argument choices dflt given =
     (case given of
        None \<Rightarrow> Inr dflt
      | Some v \<Rightarrow> if v \<in> set choices then Inr v else Inl SystemExit)"

definition parse_args :: "cli \<Rightarrow> error + namespace" where
  "parse_args c =
     (case add_argument [0, 1] 0 (given_gps c) of
        Inl e \<Rightarrow> Inl e
      | Inr g \<Rightarrow>
     (case add_argument [0, 1] 0 (given_pc c) of
        Inl e \<Rightarrow> Inl e
      | Inr p \<Rightarrow>
     (case add_argument [0, 1] 0 (given_pmd c) of
        Inl e \<Rightarrow> Inl e
      | Inr m \<Rightarrow>
     (case add_argument [0, 1] 0 (given_pr c) of
        Inl e \<Rightarrow> Inl e
      | Inr r \<Rightarrow> Inr \<lparr>gps = g, pc = p, pmd = m, pr = r\<rparr>))))"

text \<open>
  \<^verbatim>\<open>evidence = {"GPS": args.gps, "PC": args.pc, "PMD": args.pmd, "PR": args.pr}\<close>
  (line 68)
\<close>

definition main_evidence :: "namespace \<Rightarrow> evidence" where
  "main_evidence args =
     [(''GPS'', gps args), (''PC'', pc args), (''PMD'', pmd args), (''PR'', pr args)]"

text \<open>
  The contracts of this script: \<^verbatim>\<open>submitInference\<close> takes the four evidence bits and
  the scaled pair, \<^verbatim>\<open>lastEvidenceId\<close> and \<^verbatim>\<open>getEvidence\<close> are views. As before they
  are parameters, and the result of \<^verbatim>\<open>main\<close> lists its calls.
\<close>

record 'w log_contracts =
  log_submitInference :: "int \<Rightarrow> int \<Rightarrow> int \<Rightarrow> int \<Rightarrow> int \<Rightarrow> int \<Rightarrow> string \<Rightarrow> 'w \<Rightarrow> 'w"
  lastEvidenceId :: "'w \<Rightarrow> int"
  getEvidence :: "int \<Rightarrow> 'w \<Rightarrow> int \<times> int \<times> int \<times> int \<times> int \<times> int"

datatype log_call =
    LogInfer evidence
  | LogSubmit int int int int int int string
  | LogRead int "int \<times> int \<times> int \<times> int \<times> int \<times> int"

definition deployed_address :: "filesystem \<Rightarrow> string \<Rightarrow> error + string" where
  "deployed_address fs name =
     (case find_build_artifact fs name of
        Inl e \<Rightarrow> Inl e
      | Inr a \<Rightarrow>
          (case map_of (networks a) NETWORK_ID of
             None \<Rightarrow> Inl KeyError
           | Some address \<Rightarrow> Inr address))"

definition run_inference_and_log_main ::
  "cli \<Rightarrow> filesystem \<Rightarrow> web3 \<Rightarrow> (priors \<Rightarrow> cpts \<Rightarrow> bn) \<Rightarrow> 'w log_contracts \<Rightarrow> 'w
     \<Rightarrow> error + 'w \<times> log_call list" where
  "run_inference_and_log_main c fs w3 BNOracle contracts w =
     (case parse_args c of
        Inl e \<Rightarrow> Inl e
      | Inr args \<Rightarrow>
     if \<not> is_connected w3 then Inl RuntimeError
     else
     (case accounts w3 of
        [] \<Rightarrow> Inl RuntimeError
      | sender # _ \<Rightarrow>
     (case build_bn_from_chain fs w3 BNOracle of
        Inl e \<Rightarrow> Inl e
      | Inr (bn, priors, cpts, reads) \<Rightarrow>
     (case map_of cpts ''GPS'' of
        None \<Rightarrow> Inl KeyError
      | Some table \<Rightarrow>
     (case map_of table (1, 0) of
        None \<Rightarrow> Inl KeyError
      | Some shown \<Rightarrow>
     (let evidence = main_evidence args
      in case bn evidence of
           Inl e \<Rightarrow> Inl e
         | Inr posterior \<Rightarrow>
     (let scaled_pph = scale_posterior (PPH posterior);
          scaled_ppr = scale_posterior (PPR posterior)
      in case deployed_address fs ''OracleController'' of
           Inl e \<Rightarrow> Inl e
         | Inr oc_addr \<Rightarrow>
     (case deployed_address fs ''EvidenceRegistry'' of
        Inl e \<Rightarrow> Inl e
      | Inr er_addr \<Rightarrow>
     (let w' = log_submitInference contracts (gps args) (pc args) (pmd args) (pr args)
                 scaled_pph scaled_ppr sender w;
          evidence_id = lastEvidenceId contracts w';
          stored = getEvidence contracts evidence_id w'
      in Inr (w', [LogInfer evidence,
                   LogSubmit (gps args) (pc args) (pmd args) (pr args)
                     scaled_pph scaled_ppr sender,
                   LogRead evidence_id stored]))))))))))"

section \<open>Expected reads and concrete environments\<close>

text \<open>
  The reads the loader is to make, in order: the two priors, then for each evidence
  index \<open>0..3\<close> the four cells \<open>(0,0)\<close>, \<open>(0,1)\<close>, \<open>(1,0)\<close>, \<open>(1,1)\<close>; and the table
  that the four cells of one evidence index fill.
\<close>

definition expected_reads :: "store_read list" where
  "expected_reads =
     [Call_priorPPH, Call_priorPPR,
      Call_getEvidenceTrueCPT 0 0 0, Call_getEvidenceTrueCPT 0 0 1,
      Call_getEvidenceTrueCPT 0 1 0, Call_getEvidenceTrueCPT 0 1 1,
      Call_getEvidenceTrueCPT 1 0 0, Call_getEvidenceTrueCPT 1 0 1,
      Call_getEvidenceTrueCPT 1 1 0, Call_getEvidenceTrueCPT 1 1 1,
      Call_getEvidenceTrueCPT 2 0 0, Call_getEvidenceTrueCPT 2 0 1,
      Call_getEvidenceTrueCPT 2 1 0, Call_getEvidenceTrueCPT 2 1 1,
      Call_getEvidenceTrueCPT 3 0 0, Call_getEvidenceTrueCPT 3 0 1,
      Call_getEvidenceTrueCPT 3 1 0, Call_getEvidenceTrueCPT 3 1 1]"

definition table_of :: "cpt_store \<Rightarrow> int \<Rightarrow> cpt_table" where
  "table_of store ev_idx =
     [((0, 0), descale (getEvidenceTrueCPT store ev_idx 0 0)),
      ((0, 1), descale (getEvidenceTrueCPT store ev_idx 0 1)),
      ((1, 0), descale (getEvidenceTrueCPT store ev_idx 1 0)),
      ((1, 1), descale (getEvidenceTrueCPT store ev_idx 1 1))]"

text \<open>
  A deployment as the scripts expect it: the three artifacts under
  \<^verbatim>\<open>deployment/build\<close>, each deployed on network 5777; a node with two accounts; a
  \<^verbatim>\<open>CPTStore\<close> holding the priors 0.3 and 0.4 and the neutral tables that
  \<^verbatim>\<open>fill_cpts.py\<close> writes (0.5 in every cell).
\<close>

definition example_artifact :: artifact where
  "example_artifact = \<lparr>networks = [(''5777'', ''0xC0'')], abi = ''[]''\<rparr>"

definition example_fs :: filesystem where
  "example_fs =
     map_of [(''deployment/build/CPTStore.json'', example_artifact),
             (''deployment/build/OracleController.json'', example_artifact),
             (''deployment/build/EvidenceRegistry.json'', example_artifact)]"

definition neutral_cpt :: "int \<Rightarrow> int \<Rightarrow> int \<Rightarrow> int" where
  "neutral_cpt ev_idx pph ppr = 500000"

definition example_store :: cpt_store where
  "example_store = \<lparr>priorPPH = 300000, priorPPR = 400000, getEvidenceTrueCPT = neutral_cpt\<rparr>"

definition example_contract_at :: "string \<Rightarrow> cpt_store" where
  "example_contract_at address = example_store"

definition example_w3 :: web3 where
  "example_w3 =
     \<lparr>is_connected = True, accounts = [''0xA0'', ''0xB0''], cpt_store_at = example_contract_at\<rparr>"

text \<open>A \<^verbatim>\<open>CPTStore\<close> whose first prior is twice \<open>SCALE\<close>.\<close>

definition corrupt_store :: cpt_store where
  "corrupt_store = \<lparr>priorPPH = 2000000, priorPPR = 500000, getEvidenceTrueCPT = neutral_cpt\<rparr>"

definition corrupt_contract_at :: "string \<Rightarrow> cpt_store" where
  "corrupt_contract_at address = corrupt_store"

definition corrupt_w3 :: web3 where
  "corrupt_w3 =
     \<lparr>is_connected = True, accounts = [''0xA0'', ''0xB0''], cpt_store_at = corrupt_contract_at\<rparr>"

text \<open>
  An evidence registry. Claim 1 has four rows, added in the order 10, 11, 12, 13:
  GPS = 1, PC = 0, GPS = 0 (the index 0 a second time) and a row with the index 4.
  Claim 2 has that last row only; every other claim has none.
\<close>

definition example_rows :: "int \<Rightarrow> evidence_row" where
  "example_rows eid =
     \<lparr>row_id = eid, row_claimId = 1,
      evidenceIndex = (if eid = 10 then 0 else if eid = 11 then 1 else if eid = 12 then 0 else 4),
      row_value = (if eid = 10 then 1 else if eid = 11 then 0 else if eid = 12 then 0 else 1),
      row_timestamp = 1700000000 + eid, reporter = ''0xB0''\<rparr>"

definition example_ids :: "int \<Rightarrow> int list" where
  "example_ids claim_id =
     (if claim_id = 1 then [10, 11, 12, 13] else if claim_id = 2 then [13] else [])"

definition example_registry :: evidence_registry where
  "example_registry = \<lparr>getEvidenceIdsForClaim = example_ids, evidences = example_rows\<rparr>"

text \<open>
  An engine that answers every evidence dict with the posterior \<open>(1/4, 1/2)\<close>; a claim
  store whose rows are freshly opened claims; a controller whose transaction leaves the
  chain as it is (a submission that does not apply); and a bookkeeping function that
  advances a row's update time.
\<close>

definition example_bn :: bn where
  "example_bn ev = Inr \<lparr>PPH = 1 / 4, PPR = 1 / 2\<rparr>"

definition example_claims :: claim_store where
  "example_claims claim_id =
     \<lparr>cid = claim_id, physician = ''0xB0'', opened_at = 1700000000, updated_at = 1700000000,
      bn_id = 0, posteriorPPH = 0, posteriorPPR = 0, closed = False\<rparr>"

definition dropped_submitInference :: "claim_store controller" where
  "dropped_submitInference claim_id scaledPPH scaledPPR sender store = store"

definition example_touch :: "claim_row \<Rightarrow> claim_row" where
  "example_touch row = row\<lparr>updated_at := updated_at row + 15\<rparr>"

text \<open>
  For the single-shot driver: a command line that gives \<^verbatim>\<open>--gps 1\<close> only and an
  evidence log whose
  \<^verbatim>\<open>submitInference\<close> appends a row, whose last id is the index of the last row and
  whose \<^verbatim>\<open>getEvidence\<close> reads a row by index.
\<close>

definition example_cli :: cli where
  "example_cli = \<lparr>given_gps = Some 1, given_pc = None, given_pmd = None, given_pr = None\<rparr>"

type_synonym evidence_log = "(int \<times> int \<times> int \<times> int \<times> int \<times> int) list"

definition example_log_submit ::
  "int \<Rightarrow> int \<Rightarrow> int \<Rightarrow> int \<Rightarrow> int \<Rightarrow> int \<Rightarrow> string \<Rightarrow> evidence_log \<Rightarrow> evidence_log" where
  "example_log_submit g p m r a b sender w = w @ [(g, p, m, r, a, b)]"

definition example_last_id :: "evidence_log \<Rightarrow> int" where
  "example_last_id w = int (length w) - 1"

definition example_get :: "int \<Rightarrow> evidence_log \<Rightarrow> int \<times> int \<times> int \<times> int \<times> int \<times> int" where
  "example_get i w = (if 0 \<le> i \<and> i < int (length w) then w ! nat i else (0, 0, 0, 0, 0, 0))"

definition example_log_contracts :: "evidence_log log_contracts" where
  "example_log_contracts =
     \<lparr>log_submitInference = example_log_submit, lastEvidenceId = example_last_id,
      getEvidence = example_get\<rparr>"

text \<open>
  Two engines that tell a total evidence dict from a partial one: the first answers only
  a dict whose keys are exactly the four variables and rejects every other dict; the second
  does the opposite.
\<close>

definition total_only_bn :: bn where
  "total_only_bn ev =
     (if map fst ev = EVIDENCE_NAMES then Inr \<lparr>PPH = 1 / 4, PPR = 1 / 2\<rparr>
      else Inl UnknownVariableError)"

definition total_only_BNOracle :: "priors \<Rightarrow> cpts \<Rightarrow> bn" where
  "total_only_BNOracle priors cpts = total_only_bn"

definition partial_only_bn :: bn where
  "partial_only_bn ev =
     (if map fst ev = EVIDENCE_NAMES then Inl DegenerateEvidenceError
      else Inr \<lparr>PPH = 1 / 4, PPR = 1 / 2\<rparr>)"

definition partial_only_BNOracle :: "priors \<Rightarrow> cpts \<Rightarrow> bn" where
  "partial_only_BNOracle priors cpts = partial_only_bn"

section \<open>Properties of the fixed-point conversion\<close>

lemma py_round_below: "x - real_of_int \<lfloor>x\<rfloor> < 1 / 2 \<Longrightarrow> py_round x = \<lfloor>x\<rfloor>"
  by (simp add: py_round_def Let_def)

lemma py_round_above: "1 / 2 < x - real_of_int \<lfloor>x\<rfloor> \<Longrightarrow> py_round x = \<lfloor>x\<rfloor> + 1"
  by (simp add: py_round_def Let_def)

lemma py_round_tie:
  "x - real_of_int \<lfloor>x\<rfloor> = 1 / 2 \<Longrightarrow> py_round x = (if even \<lfloor>x\<rfloor> then \<lfloor>x\<rfloor> else \<lfloor>x\<rfloor> + 1)"
  by (simp add: py_round_def Let_def)

lemma py_round_dist: "\<bar>real_of_int (py_round x) - x\<bar> \<le> 1 / 2"
proof -
  have lo: "real_of_int \<lfloor>x\<rfloor> \<le> x" and hi: "x < real_of_int \<lfloor>x\<rfloor> + 1"
    by linarith+
  consider (b) "x - real_of_int \<lfloor>x\<rfloor> < 1 / 2" | (a) "1 / 2 < x - real_of_int \<lfloor>x\<rfloor>"
    | (t) "x - real_of_int \<lfloor>x\<rfloor> = 1 / 2"
    by linarith
  then show ?thesis
  proof cases
    case b
    with lo show ?thesis by (simp add: py_round_below)
  next
    case a
    with hi show ?thesis by (simp add: py_round_above)
  next
    case t
    then show ?thesis by (simp add: py_round_tie)
  qed
qed

lemma py_round_tie_even:
  assumes "\<bar>real_of_int (py_round x) - x\<bar> = 1 / 2"
  shows "even (py_round x)"
proof -
  have lo: "real_of_int \<lfloor>x\<rfloor> \<le> x" and hi: "x < real_of_int \<lfloor>x\<rfloor> + 1"
    by linarith+
  consider (b) "x - real_of_int \<lfloor>x\<rfloor> < 1 / 2" | (a) "1 / 2 < x - real_of_int \<lfloor>x\<rfloor>"
    | (t) "x - real_of_int \<lfloor>x\<rfloor> = 1 / 2"
    by linarith
  then show ?thesis
  proof cases
    case b
    with assms lo show ?thesis by (simp add: py_round_below)
  next
    case a
    with assms hi show ?thesis by (simp add: py_round_above)
  next
    case t
    then show ?thesis by (simp add: py_round_tie)
  qed
qed

lemma py_round_mono_int:
  assumes "real_of_int a \<le> x" and "x \<le> real_of_int b"
  shows "a \<le> py_round x \<and> py_round x \<le> b"
proof -
  have d: "\<bar>real_of_int (py_round x) - x\<bar> \<le> 1 / 2"
    by (rule py_round_dist)
  from d assms(1) have "real_of_int a - 1 / 2 \<le> real_of_int (py_round x)" by linarith
  then have "real_of_int a < real_of_int (py_round x) + 1" by linarith
  then have "a < py_round x + 1" by linarith
  moreover
  from d assms(2) have "real_of_int (py_round x) \<le> real_of_int b + 1 / 2" by linarith
  then have "real_of_int (py_round x) < real_of_int b + 1" by linarith
  then have "py_round x < b + 1" by linarith
  ultimately show ?thesis by simp
qed

lemma spec_round_eq_py_round:
  assumes "0 \<le> x" and "x - real_of_int \<lfloor>x\<rfloor> \<noteq> 1 / 2"
  shows "spec_round_half_away x = py_round x"
proof -
  have lo: "real_of_int \<lfloor>x\<rfloor> \<le> x" and hi: "x < real_of_int \<lfloor>x\<rfloor> + 1"
    by linarith+
  from assms(2) consider (b) "x - real_of_int \<lfloor>x\<rfloor> < 1 / 2"
    | (a) "1 / 2 < x - real_of_int \<lfloor>x\<rfloor>"
    by linarith
  then show ?thesis
  proof cases
    case b
    with lo have "\<lfloor>x + 1 / 2\<rfloor> = \<lfloor>x\<rfloor>" by (intro floor_unique) linarith+
    with b assms(1) show ?thesis by (simp add: spec_round_half_away_def py_round_below)
  next
    case a
    with hi have "\<lfloor>x + 1 / 2\<rfloor> = \<lfloor>x\<rfloor> + 1" by (intro floor_unique) (simp, linarith)+
    with a assms(1) show ?thesis by (simp add: spec_round_half_away_def py_round_above)
  qed
qed

lemma pow2_pos: "0 < pow2 q"
  by (simp add: pow2_def)

lemma binade_bounds:
  assumes "x \<noteq> 0"
  shows "pow2 (binade x) \<le> \<bar>x\<bar> \<and> \<bar>x\<bar> < pow2 (binade x + 1)"
proof (cases "1 \<le> \<bar>x\<bar>")
  case True
  let ?n = "\<lfloor>\<bar>x\<bar>\<rfloor>"
  from True have pos: "0 < ?n" by linarith
  from bitlen_bounds[OF pos] have lo: "2 ^ nat (bitlen ?n - 1) \<le> ?n"
    and hi: "?n < 2 ^ nat (bitlen ?n)" by simp_all
  from pos have b1: "1 \<le> bitlen ?n" by (simp add: bitlen_alt_def)
  have k: "binade x = bitlen ?n - 1" using True by (simp add: binade_def)
  from lo have "real_of_int (2 ^ nat (bitlen ?n - 1)) \<le> real_of_int ?n" by linarith
  then have "(2::real) ^ nat (bitlen ?n - 1) \<le> real_of_int ?n" by simp
  also have "\<dots> \<le> \<bar>x\<bar>" by linarith
  finally have 1: "pow2 (binade x) \<le> \<bar>x\<bar>" using b1 by (simp add: k pow2_def)
  from hi have "?n + 1 \<le> 2 ^ nat (bitlen ?n)" by linarith
  then have "real_of_int (?n + 1) \<le> real_of_int (2 ^ nat (bitlen ?n))" by linarith
  then have "real_of_int ?n + 1 \<le> (2::real) ^ nat (bitlen ?n)" by simp
  moreover have "\<bar>x\<bar> < real_of_int ?n + 1" by linarith
  ultimately have "\<bar>x\<bar> < (2::real) ^ nat (bitlen ?n)" by linarith
  then have 2: "\<bar>x\<bar> < pow2 (binade x + 1)" using b1 by (simp add: k pow2_def)
  from 1 2 show ?thesis ..
next
  case False
  define a where "a = \<bar>x\<bar>"
  define m where "m = \<lceil>1 / a\<rceil> - 1"
  define j where "j = bitlen m"
  from False assms have small: "0 < a" "a < 1" by (simp_all add: a_def)
  then have y1: "1 < 1 / a" by simp
  then have "1 < \<lceil>1 / a\<rceil>" by linarith
  then have pos: "0 < m" by (simp add: m_def)
  from bitlen_bounds[OF pos] have lo: "2 ^ nat (j - 1) \<le> m"
    and hi: "m < 2 ^ nat j" by (simp_all add: j_def)
  from pos have b1: "1 \<le> j" by (simp add: j_def bitlen_alt_def)
  have k: "binade x = - j" using False by (simp add: binade_def j_def m_def a_def)
  define P :: real where "P = 2 ^ nat j"
  define Q :: real where "Q = 2 ^ nat (j - 1)"
  have Ppos: "0 < P" and Qpos: "0 < Q" by (simp_all add: P_def Q_def)
  from hi have "m + 1 \<le> 2 ^ nat j" by linarith
  then have "real_of_int (m + 1) \<le> real_of_int (2 ^ nat j)" by linarith
  then have "real_of_int (m + 1) \<le> P" by (simp add: P_def)
  moreover have "1 / a \<le> real_of_int (m + 1)" unfolding m_def by linarith
  ultimately have "1 / a \<le> P" by linarith
  with small(1) have "1 \<le> P * a" by (simp add: pos_divide_le_eq)
  with Ppos have le: "1 / P \<le> a" by (simp add: pos_divide_le_eq mult.commute)
  from lo have "real_of_int (2 ^ nat (j - 1)) \<le> real_of_int m" by linarith
  then have "Q \<le> real_of_int m" by (simp add: Q_def)
  moreover have "real_of_int m < 1 / a" unfolding m_def by linarith
  ultimately have "Q < 1 / a" by linarith
  with small(1) have "Q * a < 1" by (simp add: pos_less_divide_eq)
  with Qpos have lt: "a < 1 / Q" by (simp add: pos_less_divide_eq mult.commute)
  from b1 have pj: "pow2 (- j) = 1 / P" by (simp add: pow2_def P_def)
  have pj1: "pow2 (- j + 1) = 1 / Q"
  proof (cases "j = 1")
    case True
    then show ?thesis by (simp add: pow2_def Q_def)
  next
    case False
    with b1 have "\<not> 0 \<le> - j + 1" and "nat (- (- j + 1)) = nat (j - 1)" by simp_all
    then show ?thesis by (simp add: pow2_def Q_def)
  qed
  from pj have e1: "pow2 (binade x) = 1 / P" by (simp add: k)
  from pj1 have e2: "pow2 (binade x + 1) = 1 / Q" by (simp add: k)
  from le lt show ?thesis unfolding e1 e2 a_def by simp
qed

lemma round_to_double_error:
  "x \<noteq> 0 \<Longrightarrow>
   \<bar>round_to_double x - x\<bar> \<le> pow2 (max (binade x - 52) (- 1074)) / 2"
proof -
  assume nz: "x \<noteq> 0"
  define q where "q = max (binade x - 52) (- 1074)"
  have pos: "0 < pow2 q" by (rule pow2_pos)
  have "round_to_double x - x = (real_of_int (py_round (x / pow2 q)) - x / pow2 q) * pow2 q"
    using nz pos by (simp add: round_to_double_def Let_def q_def[symmetric] field_simps)
  then have "\<bar>round_to_double x - x\<bar> = \<bar>real_of_int (py_round (x / pow2 q)) - x / pow2 q\<bar> * pow2 q"
    using pos by (simp add: abs_mult)
  also have "\<dots> \<le> (1 / 2) * pow2 q"
    using py_round_dist[of "x / pow2 q"] pos by (intro mult_right_mono) simp_all
  finally show ?thesis by (simp add: q_def)
qed

lemma round_to_double_range:
  assumes "0 \<le> y" and "y \<le> 1000000"
  shows "0 \<le> round_to_double y \<and> round_to_double y \<le> 1000000"
proof (cases "y = 0")
  case True
  then show ?thesis by (simp add: round_to_double_def)
next
  case False
  define q where "q = max (binade y - 52) (- 1074)"
  have "binade y \<le> 52"
  proof (cases "1 \<le> \<bar>y\<bar>")
    case True
    have "\<lfloor>\<bar>y\<bar>\<rfloor> < 2 ^ nat 53" using assms by (simp add: floor_less_iff)
    then have "bitlen \<lfloor>\<bar>y\<bar>\<rfloor> \<le> 53" by (simp add: bitlen_le_iff_power)
    with True show ?thesis by (simp add: binade_def)
  next
    case False
    then show ?thesis using bitlen_nonneg[of "\<lceil>1 / \<bar>y\<bar>\<rceil> - 1"] by (simp add: binade_def)
  qed
  then have q0: "q \<le> 0" by (simp add: q_def)
  define n where "n = nat (- q)"
  from q0 have pq: "pow2 q = 1 / 2 ^ n"
    by (cases "q = 0") (simp_all add: pow2_def n_def)
  have val: "round_to_double y = real_of_int (py_round (y * 2 ^ n)) / 2 ^ n"
    using False by (simp add: round_to_double_def Let_def q_def[symmetric] pq)
  have "real_of_int 0 \<le> y * 2 ^ n" using assms(1) by simp
  moreover have "y * 2 ^ n \<le> real_of_int (1000000 * 2 ^ n)" using assms(2) by simp
  ultimately have "0 \<le> py_round (y * 2 ^ n) \<and> py_round (y * 2 ^ n) \<le> 1000000 * 2 ^ n"
    by (rule py_round_mono_int)
  then have "0 \<le> real_of_int (py_round (y * 2 ^ n))"
    and "real_of_int (py_round (y * 2 ^ n)) \<le> real_of_int (1000000 * 2 ^ n)"
    by linarith+
  then show ?thesis by (simp add: val field_simps)
qed

lemma example_scaled:
  "scale_posterior (1 / 4) = 250000"
  "scale_posterior (1 / 2) = 500000"
  by (simp_all add: scale_posterior_def float_mul_def SCALE_def round_to_double_def binade_def
      compute_bitlen pow2_def py_round_def Let_def)

text \<open>
  C1 (as the code has it). The sync step converts a posterior component \<open>p\<close> to
  \<^verbatim>\<open>round\<close> of the double product of \<open>p\<close> and \<open>SCALE\<close>: the integer nearest to that
  double, a tie resolved to the even neighbour, not away from zero. No clamp is applied;
  the result lies in \<open>[0, SCALE]\<close> whenever \<open>p\<close> lies in \<open>[0, 1]\<close>. For such a \<open>p\<close>
  whose double product is not a tie the result is the value the specification's
  half-away-from-zero, clamped conversion gives.
\<close>

theorem scale_posterior_nearest_even:
  "scale_posterior p = py_round (round_to_double (p * real_of_int SCALE))
   \<and> \<bar>real_of_int (scale_posterior p) - float_mul p (real_of_int SCALE)\<bar> \<le> 1 / 2
   \<and> (\<bar>real_of_int (scale_posterior p) - float_mul p (real_of_int SCALE)\<bar> = 1 / 2
        \<longrightarrow> even (scale_posterior p))
   \<and> (0 \<le> p \<and> p \<le> 1 \<longrightarrow> 0 \<le> scale_posterior p \<and> scale_posterior p \<le> SCALE)
   \<and> (0 \<le> p \<and> p \<le> 1
        \<and> float_mul p (real_of_int SCALE)
            - real_of_int \<lfloor>float_mul p (real_of_int SCALE)\<rfloor> \<noteq> 1 / 2
        \<longrightarrow> scale_posterior p = spec_to_fixed p)"
proof -
  let ?x = "float_mul p (real_of_int SCALE)"
  have S: "real_of_int SCALE = 1000000" by (simp add: SCALE_def)
  have xr: "0 \<le> ?x \<and> ?x \<le> 1000000" if "0 \<le> p" "p \<le> 1"
  proof -
    from that have "0 \<le> p * real_of_int SCALE" "p * real_of_int SCALE \<le> 1000000"
      by (simp_all add: S)
    then show ?thesis unfolding float_mul_def by (rule round_to_double_range)
  qed
  have range: "0 \<le> scale_posterior p \<and> scale_posterior p \<le> SCALE" if "0 \<le> p" "p \<le> 1"
  proof -
    from xr[OF that] have "real_of_int 0 \<le> ?x" and "?x \<le> real_of_int SCALE"
      by (simp_all add: S)
    then show ?thesis
      unfolding scale_posterior_def by (rule py_round_mono_int)
  qed
  have agree: "scale_posterior p = spec_to_fixed p"
    if "0 \<le> p" "p \<le> 1" "?x - real_of_int \<lfloor>?x\<rfloor> \<noteq> 1 / 2"
  proof -
    from xr[OF that(1,2)] have "0 \<le> ?x" by simp
    then have "spec_round_half_away ?x = py_round ?x"
      using that(3) by (rule spec_round_eq_py_round)
    moreover from range[OF that(1,2)] have "spec_clamp (scale_posterior p) = scale_posterior p"
      by (simp add: spec_clamp_def)
    ultimately show ?thesis by (simp add: spec_to_fixed_def scale_posterior_def)
  qed
  have unfold: "scale_posterior p = py_round (round_to_double (p * real_of_int SCALE))"
    by (simp add: scale_posterior_def float_mul_def)
  show ?thesis
    using unfold py_round_dist[of ?x] py_round_tie_even[of ?x] range agree
    by (simp add: scale_posterior_def)
qed

theorem scale_posterior_nearest_even_witness:
  "\<bar>real_of_int (scale_posterior (1 / 128)) - float_mul (1 / 128) (real_of_int SCALE)\<bar> = 1 / 2
   \<and> even (scale_posterior (1 / 128))
   \<and> (0::real) \<le> 1 / 128 \<and> (1 / 128 :: real) \<le> 1
   \<and> 0 \<le> scale_posterior (1 / 128) \<and> scale_posterior (1 / 128) \<le> SCALE
   \<and> (0::real) \<le> 1 / 4 \<and> (1 / 4 :: real) \<le> 1
   \<and> float_mul (1 / 4) (real_of_int SCALE)
         - real_of_int \<lfloor>float_mul (1 / 4) (real_of_int SCALE)\<rfloor> \<noteq> 1 / 2
   \<and> scale_posterior (1 / 4) = spec_to_fixed (1 / 4)"
  using scale_posterior_nearest_even[of "1 / 128"] scale_posterior_nearest_even[of "1 / 4"]
  by (simp add: scale_posterior_def float_mul_def SCALE_def round_to_double_def binade_def
      compute_bitlen pow2_def py_round_def Let_def)

text \<open>
  C1 (as the specification states it) fails on the code. At \<open>p = 1/128\<close> the double
  product is the tie \<open>7812.5\<close>: the code submits \<open>7812\<close>, half-away-from-zero rounding
  gives \<open>7813\<close>. At the double nearest to \<open>2.5e-06\<close>, which is
  \<open>5902958103587057 / 2^71\<close>, the double product is the tie \<open>2.5\<close>: the code submits
  \<open>2\<close>, half-away-from-zero rounding gives \<open>3\<close>. At \<open>p = 3/2\<close> the code submits
  \<open>1500000\<close>, which is above \<open>SCALE\<close>, where the clamped conversion gives \<open>SCALE\<close>; at
  \<open>p = -1/2\<close> it submits a negative value.
\<close>

theorem scale_posterior_not_half_away_clamped:
  "scale_posterior (1 / 128) = 7812 \<and> spec_to_fixed (1 / 128) = 7813
   \<and> float_mul (5902958103587057 / 2 ^ 71) (real_of_int SCALE) = 5 / 2
   \<and> scale_posterior (5902958103587057 / 2 ^ 71) = 2
   \<and> spec_to_fixed (5902958103587057 / 2 ^ 71) = 3
   \<and> scale_posterior (3 / 2) = 1500000 \<and> spec_to_fixed (3 / 2) = 1000000
   \<and> \<not> scale_posterior (3 / 2) \<le> SCALE
   \<and> scale_posterior (- 1 / 2) = - 500000 \<and> \<not> 0 \<le> scale_posterior (- 1 / 2)"
  by (simp add: scale_posterior_def float_mul_def spec_to_fixed_def spec_clamp_def
      spec_round_half_away_def SCALE_def round_to_double_def binade_def compute_bitlen
      pow2_def py_round_def Let_def)

section \<open>Properties of the loader\<close>

lemma loop_pph_closed:
  "loop_pph store ev_idx [0, 1] ([], reads) =
     (table_of store ev_idx,
      reads @ [Call_getEvidenceTrueCPT ev_idx 0 0, Call_getEvidenceTrueCPT ev_idx 0 1,
               Call_getEvidenceTrueCPT ev_idx 1 0, Call_getEvidenceTrueCPT ev_idx 1 1])"
  by (simp add: Let_def table_of_def)

lemma loop_ev_idx_closed:
  "loop_ev_idx store idx_to_name
     ([(''GPS'', []), (''PC'', []), (''PMD'', []), (''PR'', [])],
      [Call_priorPPH, Call_priorPPR]) =
   Inr ([(''GPS'', table_of store 0), (''PC'', table_of store 1),
         (''PMD'', table_of store 2), (''PR'', table_of store 3)], expected_reads)"
  by (simp add: idx_to_name_def loop_pph_closed expected_reads_def del: loop_pph.simps)

lemma load_closed:
  assumes "find_build_artifact fs ''CPTStore'' = Inr a"
      and "map_of (networks a) NETWORK_ID = Some address"
  shows "load_priors_and_cpts_from_chain fs w3 =
     Inr ([(''PPH'', descale (priorPPH (cpt_store_at w3 address))),
           (''PPR'', descale (priorPPR (cpt_store_at w3 address)))],
          [(''GPS'', table_of (cpt_store_at w3 address) 0),
           (''PC'', table_of (cpt_store_at w3 address) 1),
           (''PMD'', table_of (cpt_store_at w3 address) 2),
           (''PR'', table_of (cpt_store_at w3 address) 3)],
          expected_reads)"
proof -
  have init: "fold (\<lambda>name d. AList.update name [] d) (map snd idx_to_name) []
      = [(''GPS'', []), (''PC'', []), (''PMD'', []), (''PR'', [])]"
    by (simp add: idx_to_name_def)
  show ?thesis
    unfolding load_priors_and_cpts_from_chain_def
    by (simp add: assms init loop_ev_idx_closed Let_def)
qed

lemma load_Inr_found:
  assumes "load_priors_and_cpts_from_chain fs w3 = Inr r"
  shows "\<exists>a address. find_build_artifact fs ''CPTStore'' = Inr a
           \<and> map_of (networks a) NETWORK_ID = Some address"
  using assms unfolding load_priors_and_cpts_from_chain_def
  by (auto split: sum.splits option.splits)

lemma load_errors:
  assumes "load_priors_and_cpts_from_chain fs w3 = Inl e"
  shows "e = FileNotFoundError \<or> e = RuntimeError"
proof (cases "find_build_artifact fs ''CPTStore''")
  case (Inl e')
  then have "e' = FileNotFoundError"
    by (auto simp: find_build_artifact_def split: option.splits)
  with Inl assms show ?thesis
    by (simp add: load_priors_and_cpts_from_chain_def)
next
  case (Inr a)
  show ?thesis
  proof (cases "map_of (networks a) NETWORK_ID")
    case None
    with Inr assms show ?thesis
      by (simp add: load_priors_and_cpts_from_chain_def)
  next
    case (Some address)
    from load_closed[OF Inr Some, of w3] assms show ?thesis by simp
  qed
qed

lemma descale_in_unit: "(0 \<le> descale raw \<and> descale raw \<le> 1) = (0 \<le> raw \<and> raw \<le> SCALE)"
  by (simp add: descale_def SCALE_def)

lemma example_found:
  "find_build_artifact example_fs ''CPTStore'' = Inr example_artifact"
  "map_of (networks example_artifact) NETWORK_ID = Some ''0xC0''"
  by (simp_all add: find_build_artifact_def example_fs_def example_artifact_def NETWORK_ID_def)

lemma example_load:
  "load_priors_and_cpts_from_chain example_fs example_w3 =
     Inr ([(''PPH'', 3 / 10), (''PPR'', 2 / 5)],
          [(''GPS'', table_of example_store 0), (''PC'', table_of example_store 1),
           (''PMD'', table_of example_store 2), (''PR'', table_of example_store 3)],
          expected_reads)"
  using load_closed[OF example_found, of example_w3]
  by (simp add: example_w3_def example_contract_at_def example_store_def descale_def SCALE_def)

lemma corrupt_found_addr: "cpt_store_at corrupt_w3 ''0xC0'' = corrupt_store"
  by (simp add: corrupt_w3_def corrupt_contract_at_def)



text \<open>
  C3 (as the code has it). The loader divides every raw prior and cell by \<open>SCALE\<close> and
  returns the quotients as they are: it has no range check and never raises a
  \<^verbatim>\<open>ParameterRangeError\<close>. Whenever the artifact and the deployment are found it
  returns a model whose priors and cells are the descaled raw values, and a descaled
  value lies in \<open>[0, 1]\<close> exactly when the raw value lies in \<open>[0, SCALE]\<close>.
\<close>

theorem loader_descales_without_validation:
  "load_priors_and_cpts_from_chain fs w3 \<noteq> Inl ParameterRangeError
   \<and> (find_build_artifact fs ''CPTStore'' = Inr a \<and> map_of (networks a) NETWORK_ID = Some address
        \<longrightarrow> (\<exists>priors cpts reads.
               load_priors_and_cpts_from_chain fs w3 = Inr (priors, cpts, reads)
               \<and> map_of priors ''PPH'' = Some (descale (priorPPH (cpt_store_at w3 address)))
               \<and> map_of priors ''PPR'' = Some (descale (priorPPR (cpt_store_at w3 address)))
               \<and> (\<forall>(ev_idx, name) \<in> set idx_to_name. \<forall>pph \<in> {0, 1}. \<forall>ppr \<in> {0, 1}.
                     Option.bind (map_of cpts name) (\<lambda>table. map_of table (pph, ppr)) =
                       Some (descale (getEvidenceTrueCPT (cpt_store_at w3 address) ev_idx pph ppr)))))
   \<and> ((0 \<le> descale raw \<and> descale raw \<le> 1) = (0 \<le> raw \<and> raw \<le> SCALE))"
proof -
  have "load_priors_and_cpts_from_chain fs w3 \<noteq> Inl ParameterRangeError"
    using load_errors[of fs w3 ParameterRangeError] by auto
  moreover have "\<exists>priors cpts reads.
               load_priors_and_cpts_from_chain fs w3 = Inr (priors, cpts, reads)
               \<and> map_of priors ''PPH'' = Some (descale (priorPPH (cpt_store_at w3 address)))
               \<and> map_of priors ''PPR'' = Some (descale (priorPPR (cpt_store_at w3 address)))
               \<and> (\<forall>(ev_idx, name) \<in> set idx_to_name. \<forall>pph \<in> {0, 1}. \<forall>ppr \<in> {0, 1}.
                     Option.bind (map_of cpts name) (\<lambda>table. map_of table (pph, ppr)) =
                       Some (descale (getEvidenceTrueCPT (cpt_store_at w3 address) ev_idx pph ppr)))"
    if found: "find_build_artifact fs ''CPTStore'' = Inr a"
              "map_of (networks a) NETWORK_ID = Some address"
  proof -
    let ?cpts = "[(''GPS'', table_of (cpt_store_at w3 address) 0),
           (''PC'', table_of (cpt_store_at w3 address) 1),
           (''PMD'', table_of (cpt_store_at w3 address) 2),
           (''PR'', table_of (cpt_store_at w3 address) 3)]"
    have "\<forall>(ev_idx, name) \<in> set idx_to_name. \<forall>pph \<in> {0, 1}. \<forall>ppr \<in> {0, 1}.
            Option.bind (map_of ?cpts name) (\<lambda>table. map_of table (pph, ppr)) =
              Some (descale (getEvidenceTrueCPT (cpt_store_at w3 address) ev_idx pph ppr))"
      by (simp add: idx_to_name_def table_of_def)
    with load_closed[OF found, of w3] show ?thesis by simp
  qed
  ultimately show ?thesis using descale_in_unit[of raw] by blast
qed

theorem loader_descales_without_validation_witness:
  "find_build_artifact example_fs ''CPTStore'' = Inr example_artifact
   \<and> map_of (networks example_artifact) NETWORK_ID = Some ''0xC0''
   \<and> load_priors_and_cpts_from_chain example_fs corrupt_w3 \<noteq> Inl ParameterRangeError
   \<and> (\<exists>priors cpts reads.
         load_priors_and_cpts_from_chain example_fs corrupt_w3 = Inr (priors, cpts, reads)
         \<and> map_of priors ''PPH'' = Some 2 \<and> map_of priors ''PPR'' = Some (1 / 2))
   \<and> \<not> (0 \<le> descale 2000000 \<and> descale 2000000 \<le> 1)"
  using loader_descales_without_validation
          [of example_fs corrupt_w3 example_artifact "''0xC0''" 2000000]
        example_found
  by (simp add: corrupt_found_addr corrupt_store_def SCALE_def) (auto simp: descale_def SCALE_def)

text \<open>
  C3 (as the specification states it) fails on the code: for a store whose
  \<^verbatim>\<open>priorPPH\<close> is \<open>2000000\<close> the loader returns a model with the prior \<open>2\<close>, outside
  \<open>[0, 1]\<close>, and no \<^verbatim>\<open>ParameterRangeError\<close>.
\<close>

theorem loader_accepts_out_of_range:
  "load_priors_and_cpts_from_chain example_fs corrupt_w3 =
     Inr ([(''PPH'', 2), (''PPR'', 1 / 2)],
          [(''GPS'', table_of corrupt_store 0), (''PC'', table_of corrupt_store 1),
           (''PMD'', table_of corrupt_store 2), (''PR'', table_of corrupt_store 3)],
          expected_reads)
   \<and> priorPPH corrupt_store = 2000000 \<and> descale (priorPPH corrupt_store) = 2
   \<and> \<not> descale (priorPPH corrupt_store) \<le> 1
   \<and> load_priors_and_cpts_from_chain example_fs corrupt_w3 \<noteq> Inl ParameterRangeError"
  using load_closed[OF example_found, of corrupt_w3]
  by (simp add: corrupt_found_addr) (simp add: corrupt_store_def descale_def SCALE_def)

section \<open>Properties of the evidence fold\<close>

lemma list_getitem_mem: "list_getitem xs i = Inr x \<Longrightarrow> x \<in> set xs"
  by (auto simp: list_getitem_def split: if_splits)

lemma names_getitem:
  "0 \<le> i \<Longrightarrow> i < 4 \<Longrightarrow> list_getitem EVIDENCE_NAMES i = Inr (EVIDENCE_NAMES ! nat i)"
  by (simp add: list_getitem_def EVIDENCE_NAMES_def)

lemma names_inj:
  assumes "0 \<le> i" "i < 4" "0 \<le> j" "j < 4"
  shows "(EVIDENCE_NAMES ! nat i = EVIDENCE_NAMES ! nat j) = (i = j)"
proof -
  from assms have "i \<in> {0, 1, 2, 3}" "j \<in> {0, 1, 2, 3}" by auto
  then show ?thesis by (auto simp: EVIDENCE_NAMES_def)
qed

lemma last_value_Nil: "last_value reg [] i = None"
  by (simp add: last_value_def)

lemma last_value_Cons:
  "last_value reg (eid # ids) i =
     (case last_value reg ids i of
        Some v \<Rightarrow> Some v
      | None \<Rightarrow> if evidenceIndex (evidences reg eid) = i
                then Some (row_value (evidences reg eid)) else None)"
  by (auto simp: last_value_def split: list.splits)

lemma loop_eid_skip:
  "4 \<le> evidenceIndex (evidences reg eid) \<Longrightarrow>
   loop_eid reg (eid # ids) acc = loop_eid reg ids acc"
  by (simp add: EVIDENCE_NAMES_def Let_def)

lemma loop_eid_take:
  "0 \<le> evidenceIndex (evidences reg eid) \<Longrightarrow> evidenceIndex (evidences reg eid) < 4 \<Longrightarrow>
   loop_eid reg (eid # ids) acc =
     loop_eid reg ids (AList.update (EVIDENCE_NAMES ! nat (evidenceIndex (evidences reg eid)))
        (row_value (evidences reg eid)) acc)"
  using names_getitem[of "evidenceIndex (evidences reg eid)"]
  by (simp add: Let_def) (simp add: EVIDENCE_NAMES_def)

lemma loop_eid_last:
  assumes "\<forall>eid \<in> set ids. 0 \<le> evidenceIndex (evidences reg eid)"
  shows "\<exists>snapshot. loop_eid reg ids acc = Inr snapshot \<and>
           (\<forall>i. 0 \<le> i \<and> i < 4 \<longrightarrow>
              map_of snapshot (EVIDENCE_NAMES ! nat i) =
                (case last_value reg ids i of
                   Some v \<Rightarrow> Some v
                 | None \<Rightarrow> map_of acc (EVIDENCE_NAMES ! nat i)))"
  using assms
proof (induction ids arbitrary: acc)
  case Nil
  then show ?case by (simp add: last_value_Nil)
next
  case (Cons eid ids)
  let ?idx = "evidenceIndex (evidences reg eid)"
  from Cons.prems have nn: "0 \<le> ?idx"
    and rest: "\<forall>e \<in> set ids. 0 \<le> evidenceIndex (evidences reg e)"
    by simp_all
  show ?case
  proof (cases "?idx < 4")
    case True
    let ?acc = "AList.update (EVIDENCE_NAMES ! nat ?idx) (row_value (evidences reg eid)) acc"
    from Cons.IH[OF rest, of ?acc] obtain snapshot where
      run: "loop_eid reg ids ?acc = Inr snapshot" and
      vals: "\<forall>i. 0 \<le> i \<and> i < 4 \<longrightarrow> map_of snapshot (EVIDENCE_NAMES ! nat i) =
                (case last_value reg ids i of Some v \<Rightarrow> Some v
                 | None \<Rightarrow> map_of ?acc (EVIDENCE_NAMES ! nat i))"
      by blast
    have "loop_eid reg (eid # ids) acc = Inr snapshot"
      using run loop_eid_take[OF nn True] by simp
    moreover have "map_of snapshot (EVIDENCE_NAMES ! nat i) =
        (case last_value reg (eid # ids) i of Some v \<Rightarrow> Some v
         | None \<Rightarrow> map_of acc (EVIDENCE_NAMES ! nat i))" if "0 \<le> i" "i < 4" for i
      using vals that names_inj[OF nn True that]
      by (auto simp: last_value_Cons update_conv' split: option.splits)
    ultimately show ?thesis by blast
  next
    case False
    then have big: "4 \<le> ?idx" by simp
    from Cons.IH[OF rest, of acc] obtain snapshot where
      run: "loop_eid reg ids acc = Inr snapshot" and
      vals: "\<forall>i. 0 \<le> i \<and> i < 4 \<longrightarrow> map_of snapshot (EVIDENCE_NAMES ! nat i) =
                (case last_value reg ids i of Some v \<Rightarrow> Some v
                 | None \<Rightarrow> map_of acc (EVIDENCE_NAMES ! nat i))"
      by blast
    have "loop_eid reg (eid # ids) acc = Inr snapshot"
      using run loop_eid_skip[OF big] by simp
    moreover have "map_of snapshot (EVIDENCE_NAMES ! nat i) =
        (case last_value reg (eid # ids) i of Some v \<Rightarrow> Some v
         | None \<Rightarrow> map_of acc (EVIDENCE_NAMES ! nat i))" if "0 \<le> i" "i < 4" for i
      using vals that big
      by (auto simp: last_value_Cons split: option.splits)
    ultimately show ?thesis by blast
  qed
qed

lemma loop_eid_keys:
  "loop_eid reg ids acc = Inr snapshot \<Longrightarrow> fst ` set acc \<subseteq> set EVIDENCE_NAMES
     \<Longrightarrow> fst ` set snapshot \<subseteq> set EVIDENCE_NAMES"
proof (induction ids arbitrary: acc)
  case Nil
  then show ?case by simp
next
  case (Cons eid ids)
  show ?case
  proof (cases "evidenceIndex (evidences reg eid) < int (length EVIDENCE_NAMES)")
    case True
    with Cons.prems(1) obtain name where
      nm: "list_getitem EVIDENCE_NAMES (evidenceIndex (evidences reg eid)) = Inr name" and
      run: "loop_eid reg ids (AList.update name (row_value (evidences reg eid)) acc)
              = Inr snapshot"
      by (auto simp: Let_def split: sum.splits)
    from nm have "name \<in> set EVIDENCE_NAMES" by (rule list_getitem_mem)
    with Cons.prems(2) have
      "fst ` set (AList.update name (row_value (evidences reg eid)) acc) \<subseteq> set EVIDENCE_NAMES"
      by (simp add: dom_update)
    with Cons.IH[OF run] show ?thesis .
  next
    case False
    with Cons.prems(1) have "loop_eid reg ids acc = Inr snapshot" by (simp add: Let_def)
    from Cons.IH[OF this Cons.prems(2)] show ?thesis .
  qed
qed

lemma loop_eid_distinct:
  "loop_eid reg ids acc = Inr snapshot \<Longrightarrow> distinct (map fst acc)
     \<Longrightarrow> distinct (map fst snapshot)"
proof (induction ids arbitrary: acc)
  case Nil
  then show ?case by simp
next
  case (Cons eid ids)
  show ?case
  proof (cases "evidenceIndex (evidences reg eid) < int (length EVIDENCE_NAMES)")
    case True
    with Cons.prems(1) obtain name where
      run: "loop_eid reg ids (AList.update name (row_value (evidences reg eid)) acc)
              = Inr snapshot"
      by (auto simp: Let_def split: sum.splits)
    from Cons.prems(2) have
      "distinct (map fst (AList.update name (row_value (evidences reg eid)) acc))"
      by (rule distinct_update)
    with Cons.IH[OF run] show ?thesis .
  next
    case False
    with Cons.prems(1) have "loop_eid reg ids acc = Inr snapshot" by (simp add: Let_def)
    from Cons.IH[OF this Cons.prems(2)] show ?thesis .
  qed
qed

lemma loop_eid_errors:
  "loop_eid reg ids acc = Inl e \<Longrightarrow> e = IndexError"
proof (induction ids arbitrary: acc)
  case Nil
  then show ?case by simp
next
  case (Cons eid ids)
  then show ?case
    by (auto simp: Let_def list_getitem_def split: if_splits sum.splits)
qed

lemma loop_eid_append:
  "loop_eid reg (ids1 @ ids2) acc =
     (case loop_eid reg ids1 acc of Inl e \<Rightarrow> Inl e | Inr mid \<Rightarrow> loop_eid reg ids2 mid)"
  by (induction ids1 arbitrary: acc) (auto simp: Let_def split: sum.splits)

lemma loop_eid_drop:
  assumes "4 \<le> evidenceIndex (evidences reg eid)"
  shows "loop_eid reg (ids1 @ eid # ids2) acc = loop_eid reg (ids1 @ ids2) acc"
  by (simp only: loop_eid_append loop_eid_skip[OF assms])

lemma example_fetch_1:
  "fetch_evidence_for_claim example_registry 1 = Inr [(''GPS'', 0), (''PC'', 0)]"
  by (simp add: fetch_evidence_for_claim_def example_registry_def example_ids_def
      example_rows_def EVIDENCE_NAMES_def list_getitem_def Let_def)

lemma example_fetch_2: "fetch_evidence_for_claim example_registry 2 = Inr []"
  by (simp add: fetch_evidence_for_claim_def example_registry_def example_ids_def
      example_rows_def EVIDENCE_NAMES_def list_getitem_def Let_def)

lemma example_fetch_3: "fetch_evidence_for_claim example_registry 3 = Inr []"
  by (simp add: fetch_evidence_for_claim_def example_registry_def example_ids_def)

lemma example_nonneg:
  "\<forall>eid \<in> set (getEvidenceIdsForClaim example_registry 1).
     0 \<le> evidenceIndex (evidences example_registry eid)"
  by (simp add: example_registry_def example_ids_def example_rows_def)

text \<open>
  C5. For every sequence of evidence rows listed for a claim (the indices, read from
  an unsigned contract field, are not negative), the fold returns a snapshot, and for
  each variable index \<open>i\<close> in \<open>[0, 4)\<close> the snapshot holds under the name of \<open>i\<close> the
  value of the last row of the sequence that carries \<open>i\<close>, and nothing when no row
  carries it.
\<close>

theorem fetch_evidence_last_write_wins:
  assumes "\<forall>eid \<in> set (getEvidenceIdsForClaim reg claim_id).
             0 \<le> evidenceIndex (evidences reg eid)"
  shows "\<exists>snapshot. fetch_evidence_for_claim reg claim_id = Inr snapshot \<and>
           (\<forall>i. 0 \<le> i \<and> i < 4 \<longrightarrow>
              map_of snapshot (EVIDENCE_NAMES ! nat i) =
                last_value reg (getEvidenceIdsForClaim reg claim_id) i)"
proof -
  from loop_eid_last[OF assms, of "[]"] obtain snapshot where
    run: "loop_eid reg (getEvidenceIdsForClaim reg claim_id) [] = Inr snapshot" and
    vals: "\<forall>i. 0 \<le> i \<and> i < 4 \<longrightarrow> map_of snapshot (EVIDENCE_NAMES ! nat i) =
                (case last_value reg (getEvidenceIdsForClaim reg claim_id) i of
                   Some v \<Rightarrow> Some v
                 | None \<Rightarrow> map_of [] (EVIDENCE_NAMES ! nat i))"
    by blast
  have "map_of snapshot (EVIDENCE_NAMES ! nat i) =
          last_value reg (getEvidenceIdsForClaim reg claim_id) i" if "0 \<le> i \<and> i < 4" for i
    using vals that by (auto split: option.splits)
  with run show ?thesis by (auto simp: fetch_evidence_for_claim_def)
qed

theorem fetch_evidence_last_write_wins_witness:
  "getEvidenceIdsForClaim example_registry 1 = [10, 11, 12, 13]
   \<and> evidenceIndex (evidences example_registry 10) = 0
   \<and> row_value (evidences example_registry 10) = 1
   \<and> evidenceIndex (evidences example_registry 11) = 1
   \<and> evidenceIndex (evidences example_registry 12) = 0
   \<and> row_value (evidences example_registry 12) = 0
   \<and> evidenceIndex (evidences example_registry 13) = 4
   \<and> fetch_evidence_for_claim example_registry 1 = Inr [(''GPS'', 0), (''PC'', 0)]
   \<and> map_of [(''GPS'', 0), (''PC'', 0)] (EVIDENCE_NAMES ! nat 0) =
       last_value example_registry (getEvidenceIdsForClaim example_registry 1) 0
   \<and> last_value example_registry (getEvidenceIdsForClaim example_registry 1) 0 = Some 0"
proof -
  from fetch_evidence_last_write_wins[OF example_nonneg] obtain snapshot where
    run: "fetch_evidence_for_claim example_registry 1 = Inr snapshot" and
    vals: "\<forall>i. 0 \<le> i \<and> i < 4 \<longrightarrow> map_of snapshot (EVIDENCE_NAMES ! nat i) =
             last_value example_registry (getEvidenceIdsForClaim example_registry 1) i"
    by blast
  from run example_fetch_1 have snap: "snapshot = [(''GPS'', 0), (''PC'', 0)]" by simp
  from vals[rule_format, of 0] have "map_of snapshot (EVIDENCE_NAMES ! nat 0) =
             last_value example_registry (getEvidenceIdsForClaim example_registry 1) 0"
    by simp
  with snap example_nonneg example_fetch_1 show ?thesis
    by (simp add: example_registry_def example_ids_def example_rows_def EVIDENCE_NAMES_def)
qed

text \<open>
  C6 (as the code has it). An evidence row whose variable index is 4 or more is skipped:
  the snapshot is the one the fold gives for the sequence without that row, and the fold
  never raises a \<^verbatim>\<open>TopologyMismatchError\<close>.
\<close>

theorem fetch_evidence_skips_index_from_four:
  "fetch_evidence_for_claim reg claim_id \<noteq> Inl TopologyMismatchError
   \<and> (getEvidenceIdsForClaim reg claim_id = ids1 @ eid # ids2
        \<and> 4 \<le> evidenceIndex (evidences reg eid)
      \<longrightarrow> fetch_evidence_for_claim reg claim_id =
            fetch_evidence_for_claim
              (reg\<lparr>getEvidenceIdsForClaim := (getEvidenceIdsForClaim reg)(claim_id := ids1 @ ids2)\<rparr>)
              claim_id)"
proof -
  have "fetch_evidence_for_claim reg claim_id \<noteq> Inl TopologyMismatchError"
    using loop_eid_errors[of reg "getEvidenceIdsForClaim reg claim_id" "[]" TopologyMismatchError]
    by (auto simp: fetch_evidence_for_claim_def)
  moreover have "fetch_evidence_for_claim reg claim_id =
            fetch_evidence_for_claim
              (reg\<lparr>getEvidenceIdsForClaim := (getEvidenceIdsForClaim reg)(claim_id := ids1 @ ids2)\<rparr>)
              claim_id"
    if ids: "getEvidenceIdsForClaim reg claim_id = ids1 @ eid # ids2"
      and big: "4 \<le> evidenceIndex (evidences reg eid)"
  proof -
    have same: "loop_eid (reg\<lparr>getEvidenceIdsForClaim := f\<rparr>) xs acc = loop_eid reg xs acc"
      for f xs acc
      by (induction xs arbitrary: acc) (auto simp: Let_def split: sum.splits)
    show ?thesis
      by (simp add: fetch_evidence_for_claim_def ids same loop_eid_drop[OF big])
  qed
  ultimately show ?thesis by blast
qed

theorem fetch_evidence_skips_index_from_four_witness:
  "getEvidenceIdsForClaim example_registry 1 = [10, 11, 12] @ 13 # []
   \<and> 4 \<le> evidenceIndex (evidences example_registry 13)
   \<and> fetch_evidence_for_claim example_registry 1 \<noteq> Inl TopologyMismatchError
   \<and> fetch_evidence_for_claim example_registry 1 =
       fetch_evidence_for_claim
         (example_registry\<lparr>getEvidenceIdsForClaim :=
            (getEvidenceIdsForClaim example_registry)(1 := [10, 11, 12] @ [])\<rparr>) 1
   \<and> fetch_evidence_for_claim example_registry 1 = Inr [(''GPS'', 0), (''PC'', 0)]"
  using fetch_evidence_skips_index_from_four[of example_registry 1 "[10, 11, 12]" 13 "[]"]
        example_fetch_1
  by (simp add: example_registry_def example_ids_def example_rows_def)

text \<open>
  C6 (as the specification states it) fails on the code: claim 2 of the example registry
  has a single row, whose variable index is 4, outside \<open>[0, 4)\<close>; processing it returns
  the empty snapshot and no \<^verbatim>\<open>TopologyMismatchError\<close>.
\<close>

theorem index_four_is_silently_ignored:
  "getEvidenceIdsForClaim example_registry 2 = [13]
   \<and> evidenceIndex (evidences example_registry 13) = 4
   \<and> \<not> (0 \<le> evidenceIndex (evidences example_registry 13)
        \<and> evidenceIndex (evidences example_registry 13) < 4)
   \<and> fetch_evidence_for_claim example_registry 2 = Inr []
   \<and> fetch_evidence_for_claim example_registry 2 \<noteq> Inl TopologyMismatchError"
  using example_fetch_2
  by (simp add: example_registry_def example_ids_def example_rows_def)

section \<open>Properties of the sync step\<close>

lemma sync_inversion:
  assumes "compute_and_commit_posterior w3 bn controller claim_registry reg claim_id w
             = Inr (w', calls)"
  shows "\<exists>ev. fetch_evidence_for_claim reg claim_id = Inr ev \<and>
           ((ev = [] \<and> calls = [] \<and> w' = w) \<or>
            (ev \<noteq> [] \<and> (\<exists>post acct others.
               bn ev = Inr post \<and> accounts w3 = acct # others \<and>
               w' = controller claim_id (scale_posterior (PPH post)) (scale_posterior (PPR post))
                      acct w \<and>
               calls = [Infer ev,
                        SubmitInference claim_id (scale_posterior (PPH post))
                          (scale_posterior (PPR post)) acct,
                        ReadClaim claim_id (claim_registry claim_id w')])))"
  using assms unfolding compute_and_commit_posterior_def
  by (auto simp: Let_def split: sum.splits if_splits list.splits)

lemma sync_run:
  assumes "fetch_evidence_for_claim reg claim_id = Inr ev" "ev \<noteq> []"
      and "bn ev = Inr post" "accounts w3 = acct # others"
  shows "compute_and_commit_posterior w3 bn controller claim_registry reg claim_id w =
     Inr (controller claim_id (scale_posterior (PPH post)) (scale_posterior (PPR post)) acct w,
          [Infer ev,
           SubmitInference claim_id (scale_posterior (PPH post)) (scale_posterior (PPR post)) acct,
           ReadClaim claim_id
             (claim_registry claim_id
                (controller claim_id (scale_posterior (PPH post)) (scale_posterior (PPR post))
                   acct w))])"
  using assms unfolding compute_and_commit_posterior_def by (simp add: Let_def)

lemma sync_empty:
  assumes "fetch_evidence_for_claim reg claim_id = Inr []"
  shows "compute_and_commit_posterior w3 bn controller claim_registry reg claim_id w = Inr (w, [])"
  using assms unfolding compute_and_commit_posterior_def by simp

lemma sync_errors:
  assumes "compute_and_commit_posterior w3 bn controller claim_registry reg claim_id w = Inl e"
  shows "e = IndexError \<or> (\<exists>ev. bn ev = Inl e)"
proof (cases "fetch_evidence_for_claim reg claim_id")
  case (Inl e')
  with assms have "e' = e" by (simp add: compute_and_commit_posterior_def)
  moreover from Inl have "e' = IndexError"
    unfolding fetch_evidence_for_claim_def by (rule loop_eid_errors)
  ultimately show ?thesis by simp
next
  case (Inr ev)
  with assms show ?thesis unfolding compute_and_commit_posterior_def
    by (auto simp: Let_def split: sum.splits if_splits list.splits)
qed

lemma example_accounts: "accounts example_w3 = ''0xA0'' # [''0xB0'']"
  by (simp add: example_w3_def)

lemma example_bn_post: "example_bn ev = Inr \<lparr>PPH = 1 / 4, PPR = 1 / 2\<rparr>"
  by (simp add: example_bn_def)

lemma spec_read_after_submit:
  "posteriorPPH (spec_getClaim c (spec_submitPosterior touch c a b sender store)) = a"
  "posteriorPPR (spec_getClaim c (spec_submitPosterior touch c a b sender store)) = b"
  by (simp_all add: spec_getClaim_def spec_submitPosterior_def)

lemma example_sync_1:
  "compute_and_commit_posterior example_w3 example_bn (spec_submitPosterior touch)
     spec_getClaim example_registry 1 store =
   Inr (spec_submitPosterior touch 1 250000 500000 ''0xA0'' store,
        [Infer [(''GPS'', 0), (''PC'', 0)],
         SubmitInference 1 250000 500000 ''0xA0'',
         ReadClaim 1 (spec_getClaim 1 (spec_submitPosterior touch 1 250000 500000 ''0xA0'' store))])"
  using sync_run[of example_registry 1 "[(''GPS'', 0), (''PC'', 0)]" example_bn
          "\<lparr>PPH = 1 / 4, PPR = 1 / 2\<rparr>" example_w3 "''0xA0''" "[''0xB0'']"
          "spec_submitPosterior touch" spec_getClaim store]
        example_fetch_1 example_bn_post example_accounts
  by (simp add: example_scaled)

text \<open>
  C2 (as the code has it). After a posterior submission the sync step re-reads the
  claim's row and reports it, and that is all: whatever the controller did with the
  submission and whatever the registry returns, the step completes normally with the
  row it read. It compares nothing, and it never raises a \<^verbatim>\<open>CommitVerificationError\<close>
  of its own.
\<close>

theorem read_back_reported_not_compared:
  "(fetch_evidence_for_claim reg claim_id = Inr ev \<and> ev \<noteq> [] \<and> bn ev = Inr post
      \<and> accounts w3 = acct # others
    \<longrightarrow> compute_and_commit_posterior w3 bn controller claim_registry reg claim_id w =
          Inr (controller claim_id (scale_posterior (PPH post)) (scale_posterior (PPR post))
                 acct w,
               [Infer ev,
                SubmitInference claim_id (scale_posterior (PPH post))
                  (scale_posterior (PPR post)) acct,
                ReadClaim claim_id
                  (claim_registry claim_id
                     (controller claim_id (scale_posterior (PPH post))
                        (scale_posterior (PPR post)) acct w))]))
   \<and> ((\<forall>ev'. bn ev' \<noteq> Inl CommitVerificationError)
       \<longrightarrow> compute_and_commit_posterior w3 bn controller claim_registry reg claim_id w
             \<noteq> Inl CommitVerificationError)"
  using sync_run[of reg claim_id ev bn post w3 "acct" others controller claim_registry w]
        sync_errors[of w3 bn controller claim_registry reg claim_id w CommitVerificationError]
  by auto

theorem read_back_reported_not_compared_witness:
  "fetch_evidence_for_claim example_registry 1 = Inr [(''GPS'', 0), (''PC'', 0)]
   \<and> [(''GPS'', 0), (''PC'', 0)] \<noteq> ([] :: evidence)
   \<and> example_bn [(''GPS'', 0), (''PC'', 0)] = Inr \<lparr>PPH = 1 / 4, PPR = 1 / 2\<rparr>
   \<and> accounts example_w3 = ''0xA0'' # [''0xB0'']
   \<and> compute_and_commit_posterior example_w3 example_bn (spec_submitPosterior example_touch)
        spec_getClaim example_registry 1 example_claims =
      Inr (spec_submitPosterior example_touch 1 250000 500000 ''0xA0'' example_claims,
           [Infer [(''GPS'', 0), (''PC'', 0)],
            SubmitInference 1 250000 500000 ''0xA0'',
            ReadClaim 1
              (spec_getClaim 1
                 (spec_submitPosterior example_touch 1 250000 500000 ''0xA0'' example_claims))])
   \<and> compute_and_commit_posterior example_w3 example_bn (spec_submitPosterior example_touch)
        spec_getClaim example_registry 1 example_claims \<noteq> Inl CommitVerificationError"
  using read_back_reported_not_compared
          [of example_registry 1 "[(''GPS'', 0), (''PC'', 0)]" example_bn
              "\<lparr>PPH = 1 / 4, PPR = 1 / 2\<rparr>" example_w3 "''0xA0''" "[''0xB0'']"
              "spec_submitPosterior example_touch" spec_getClaim example_claims]
        example_fetch_1 example_accounts example_bn_post
  by (simp add: example_scaled)

text \<open>
  C2 (as the specification states it) fails on the code. With a controller whose
  submission does not apply, the step submits \<open>(250000, 500000)\<close> for claim 1, reads back
  a row whose posterior fields are \<open>(0, 0)\<close>, and returns normally.
\<close>

theorem read_back_mismatch_passes:
  "compute_and_commit_posterior example_w3 example_bn dropped_submitInference spec_getClaim
     example_registry 1 example_claims =
   Inr (example_claims,
        [Infer [(''GPS'', 0), (''PC'', 0)],
         SubmitInference 1 250000 500000 ''0xA0'',
         ReadClaim 1 (example_claims 1)])
   \<and> posteriorPPH (example_claims 1) = 0 \<and> posteriorPPR (example_claims 1) = 0
   \<and> (posteriorPPH (example_claims 1), posteriorPPR (example_claims 1)) \<noteq> (250000, 500000)
   \<and> compute_and_commit_posterior example_w3 example_bn dropped_submitInference spec_getClaim
        example_registry 1 example_claims \<noteq> Inl CommitVerificationError"
  using sync_run[of example_registry 1 "[(''GPS'', 0), (''PC'', 0)]" example_bn
          "\<lparr>PPH = 1 / 4, PPR = 1 / 2\<rparr>" example_w3 "''0xA0''" "[''0xB0'']"
          dropped_submitInference spec_getClaim example_claims]
        example_fetch_1 example_bn_post example_accounts
  by (simp add: example_scaled dropped_submitInference_def spec_getClaim_def example_claims_def)

text \<open>
  C8. If the evidence snapshot fetched for a claim is empty, the sync step returns with
  the chain state it was given and an empty list of calls: the engine is not invoked,
  nothing is submitted, so the claim's stored posterior is as before. The outcome does
  not depend on the engine or the controller.
\<close>

theorem empty_snapshot_skips_inference_and_commit:
  assumes "fetch_evidence_for_claim reg claim_id = Inr []"
  shows "compute_and_commit_posterior w3 bn controller claim_registry reg claim_id w = Inr (w, [])
         \<and> (\<forall>bn' controller'.
               compute_and_commit_posterior w3 bn' controller' claim_registry reg claim_id w =
               compute_and_commit_posterior w3 bn controller claim_registry reg claim_id w)"
  by (simp add: sync_empty[OF assms])

theorem empty_snapshot_skips_inference_and_commit_witness:
  "fetch_evidence_for_claim example_registry 3 = Inr []
   \<and> compute_and_commit_posterior example_w3 example_bn (spec_submitPosterior example_touch)
        spec_getClaim example_registry 3 example_claims = Inr (example_claims, [])
   \<and> submitted [] = [] \<and> spec_getClaim 3 example_claims = example_claims 3"
  using empty_snapshot_skips_inference_and_commit[OF example_fetch_3,
          of example_w3 example_bn "spec_submitPosterior example_touch" spec_getClaim example_claims]
        example_fetch_3
  by (simp add: spec_getClaim_def)

text \<open>
  C7. Commit idempotence, against the claim store of the specification. Whenever a run
  of the sync step returns, a second run in succession, with the same engine, the same
  evidence registry and the same claim, returns too; it submits the same fixed-point pair
  as the first, and in both runs the pair read back is the pair submitted. The
  bookkeeping of the store may differ between the two submissions.
\<close>

theorem sync_twice_commits_same_pair:
  assumes "compute_and_commit_posterior w3 bn (spec_submitPosterior touch1) spec_getClaim
             reg claim_id store = Inr (store1, calls1)"
  shows "\<exists>store2 calls2.
           compute_and_commit_posterior w3 bn (spec_submitPosterior touch2) spec_getClaim
             reg claim_id store1 = Inr (store2, calls2)
           \<and> submitted calls2 = submitted calls1
           \<and> read_back calls1 = submitted calls1
           \<and> read_back calls2 = submitted calls2
           \<and> posteriorPPH (store2 claim_id) = posteriorPPH (store1 claim_id)
           \<and> posteriorPPR (store2 claim_id) = posteriorPPR (store1 claim_id)"
proof -
  from sync_inversion[OF assms] obtain ev where
    f: "fetch_evidence_for_claim reg claim_id = Inr ev" and
    d: "(ev = [] \<and> calls1 = [] \<and> store1 = store) \<or>
        (ev \<noteq> [] \<and> (\<exists>post acct others.
               bn ev = Inr post \<and> accounts w3 = acct # others \<and>
               store1 = spec_submitPosterior touch1 claim_id (scale_posterior (PPH post))
                      (scale_posterior (PPR post)) acct store \<and>
               calls1 = [Infer ev,
                        SubmitInference claim_id (scale_posterior (PPH post))
                          (scale_posterior (PPR post)) acct,
                        ReadClaim claim_id (spec_getClaim claim_id store1)]))"
    by blast
  from d show ?thesis
  proof
    assume e: "ev = [] \<and> calls1 = [] \<and> store1 = store"
    with f have "compute_and_commit_posterior w3 bn (spec_submitPosterior touch2) spec_getClaim
             reg claim_id store1 = Inr (store1, [])"
      by (simp add: sync_empty)
    with e show ?thesis by simp
  next
    assume "ev \<noteq> [] \<and> (\<exists>post acct others.
               bn ev = Inr post \<and> accounts w3 = acct # others \<and>
               store1 = spec_submitPosterior touch1 claim_id (scale_posterior (PPH post))
                      (scale_posterior (PPR post)) acct store \<and>
               calls1 = [Infer ev,
                        SubmitInference claim_id (scale_posterior (PPH post))
                          (scale_posterior (PPR post)) acct,
                        ReadClaim claim_id (spec_getClaim claim_id store1)])"
    then obtain post acct others where
      ne: "ev \<noteq> []" and b: "bn ev = Inr post" and a: "accounts w3 = acct # others" and
      s1: "store1 = spec_submitPosterior touch1 claim_id (scale_posterior (PPH post))
                      (scale_posterior (PPR post)) acct store" and
      c1: "calls1 = [Infer ev,
                        SubmitInference claim_id (scale_posterior (PPH post))
                          (scale_posterior (PPR post)) acct,
                        ReadClaim claim_id (spec_getClaim claim_id store1)]"
      by blast
    let ?store2 = "spec_submitPosterior touch2 claim_id (scale_posterior (PPH post))
                      (scale_posterior (PPR post)) acct store1"
    let ?calls2 = "[Infer ev,
                        SubmitInference claim_id (scale_posterior (PPH post))
                          (scale_posterior (PPR post)) acct,
                        ReadClaim claim_id (spec_getClaim claim_id ?store2)]"
    have run2: "compute_and_commit_posterior w3 bn (spec_submitPosterior touch2) spec_getClaim
             reg claim_id store1 = Inr (?store2, ?calls2)"
      by (rule sync_run[of reg claim_id ev bn post w3 acct others, OF f ne b a])
    have "submitted ?calls2 = submitted calls1" by (simp add: c1)
    moreover have "read_back calls1 = submitted calls1"
      by (simp add: c1 s1 spec_read_after_submit)
    moreover have "read_back ?calls2 = submitted ?calls2"
      by (simp add: spec_read_after_submit)
    moreover have "posteriorPPH (?store2 claim_id) = posteriorPPH (store1 claim_id)"
      "posteriorPPR (?store2 claim_id) = posteriorPPR (store1 claim_id)"
      by (simp_all add: s1 spec_submitPosterior_def)
    ultimately show ?thesis using run2 by blast
  qed
qed

theorem sync_twice_commits_same_pair_witness:
  "compute_and_commit_posterior example_w3 example_bn (spec_submitPosterior example_touch)
     spec_getClaim example_registry 1 example_claims =
   Inr (spec_submitPosterior example_touch 1 250000 500000 ''0xA0'' example_claims,
        [Infer [(''GPS'', 0), (''PC'', 0)],
         SubmitInference 1 250000 500000 ''0xA0'',
         ReadClaim 1 (spec_getClaim 1
           (spec_submitPosterior example_touch 1 250000 500000 ''0xA0'' example_claims))])
   \<and> (\<exists>store2 calls2.
         compute_and_commit_posterior example_w3 example_bn (spec_submitPosterior example_touch)
           spec_getClaim example_registry 1
           (spec_submitPosterior example_touch 1 250000 500000 ''0xA0'' example_claims)
         = Inr (store2, calls2)
         \<and> submitted calls2 = [(250000, 500000)]
         \<and> read_back calls2 = [(250000, 500000)]
         \<and> posteriorPPH (store2 1) = 250000 \<and> posteriorPPR (store2 1) = 500000)"
proof -
  let ?store1 = "spec_submitPosterior example_touch 1 250000 500000 ''0xA0'' example_claims"
  note run1 = example_sync_1[of example_touch example_claims]
  from sync_twice_commits_same_pair[where ?touch2.0 = example_touch, OF run1]
  obtain store2 calls2 where
    second: "compute_and_commit_posterior example_w3 example_bn
               (spec_submitPosterior example_touch) spec_getClaim example_registry 1 ?store1
             = Inr (store2, calls2)" and
    same: "submitted calls2 = [(250000, 500000)]" and
    rb: "read_back calls2 = submitted calls2" and
    kept: "posteriorPPH (store2 1) = posteriorPPH (?store1 1)"
          "posteriorPPR (store2 1) = posteriorPPR (?store1 1)"
    by auto
  from kept have "posteriorPPH (store2 1) = 250000" "posteriorPPR (store2 1) = 500000"
    by (simp_all add: spec_submitPosterior_def)
  with run1 second same rb show ?thesis by simp
qed

text \<open>
  C9. Every snapshot the fold returns has its keys among \<^verbatim>\<open>GPS\<close>, \<^verbatim>\<open>PC\<close>, \<^verbatim>\<open>PMD\<close>,
  \<^verbatim>\<open>PR\<close>, each at most once, with integer values; and every evidence dict the sync
  step passes to the engine is such a snapshot.
\<close>

theorem snapshot_keys_in_vocabulary:
  "(fetch_evidence_for_claim reg claim_id = Inr snapshot
      \<longrightarrow> set (map fst snapshot) \<subseteq> {''GPS'', ''PC'', ''PMD'', ''PR''}
          \<and> distinct (map fst snapshot))
   \<and> (compute_and_commit_posterior w3 bn controller claim_registry reg claim_id w
         = Inr (w', calls) \<and> Infer ev \<in> set calls
      \<longrightarrow> set (map fst ev) \<subseteq> {''GPS'', ''PC'', ''PMD'', ''PR''}
          \<and> distinct (map fst ev))"
proof -
  have keys: "set (map fst s) \<subseteq> {''GPS'', ''PC'', ''PMD'', ''PR''} \<and> distinct (map fst s)"
    if "fetch_evidence_for_claim reg claim_id = Inr s" for s
  proof -
    from that have run: "loop_eid reg (getEvidenceIdsForClaim reg claim_id) [] = Inr s"
      by (simp add: fetch_evidence_for_claim_def)
    from loop_eid_keys[OF run] have "fst ` set s \<subseteq> set EVIDENCE_NAMES" by simp
    moreover from loop_eid_distinct[OF run] have "distinct (map fst s)" by simp
    ultimately show ?thesis by (simp add: EVIDENCE_NAMES_def)
  qed
  have "set (map fst ev) \<subseteq> {''GPS'', ''PC'', ''PMD'', ''PR''} \<and> distinct (map fst ev)"
    if run: "compute_and_commit_posterior w3 bn controller claim_registry reg claim_id w
         = Inr (w', calls)" and inf: "Infer ev \<in> set calls"
  proof -
    from sync_inversion[OF run] inf have "fetch_evidence_for_claim reg claim_id = Inr ev"
      by auto
    then show ?thesis by (rule keys)
  qed
  with keys show ?thesis by blast
qed

theorem snapshot_keys_in_vocabulary_witness:
  "fetch_evidence_for_claim example_registry 1 = Inr [(''GPS'', 0), (''PC'', 0)]
   \<and> set (map fst [(''GPS'', 0::int), (''PC'', 0)]) \<subseteq> {''GPS'', ''PC'', ''PMD'', ''PR''}
   \<and> compute_and_commit_posterior example_w3 example_bn (spec_submitPosterior example_touch)
        spec_getClaim example_registry 1 example_claims =
      Inr (spec_submitPosterior example_touch 1 250000 500000 ''0xA0'' example_claims,
           [Infer [(''GPS'', 0), (''PC'', 0)],
            SubmitInference 1 250000 500000 ''0xA0'',
            ReadClaim 1 (spec_getClaim 1
              (spec_submitPosterior example_touch 1 250000 500000 ''0xA0'' example_claims))])
   \<and> Infer [(''GPS'', 0), (''PC'', 0)] \<in> set
        [Infer [(''GPS'', 0), (''PC'', 0)],
            SubmitInference 1 250000 500000 ''0xA0'',
            ReadClaim 1 (spec_getClaim 1
              (spec_submitPosterior example_touch 1 250000 500000 ''0xA0'' example_claims))]"
  using snapshot_keys_in_vocabulary[of example_registry 1 "[(''GPS'', 0), (''PC'', 0)]"]
        example_fetch_1 example_sync_1[of example_touch example_claims]
  by simp

section \<open>Properties of the single-shot driver\<close>

lemma parse_args_fields:
  assumes "parse_args c = Inr args"
  shows "gps args = (case given_gps c of None \<Rightarrow> 0 | Some v \<Rightarrow> v)
       \<and> pc args = (case given_pc c of None \<Rightarrow> 0 | Some v \<Rightarrow> v)
       \<and> pmd args = (case given_pmd c of None \<Rightarrow> 0 | Some v \<Rightarrow> v)
       \<and> pr args = (case given_pr c of None \<Rightarrow> 0 | Some v \<Rightarrow> v)
       \<and> gps args \<in> {0, 1} \<and> pc args \<in> {0, 1} \<and> pmd args \<in> {0, 1} \<and> pr args \<in> {0, 1}"
  using assms unfolding parse_args_def add_argument_def
  by (auto split: option.splits sum.splits if_splits)

lemma main_inversion:
  assumes "run_inference_and_log_main c fs w3 BNOracle contracts w = Inr (w', calls)"
  shows "\<exists>args a b sender i row. parse_args c = Inr args
           \<and> calls = [LogInfer (main_evidence args),
                      LogSubmit (gps args) (pc args) (pmd args) (pr args) a b sender,
                      LogRead i row]"
  using assms unfolding run_inference_and_log_main_def
  by (auto simp: Let_def simp del: split_paired_Ex
      split: sum.splits if_splits list.splits option.splits prod.splits)

lemma example_parse: "parse_args example_cli = Inr \<lparr>gps = 1, pc = 0, pmd = 0, pr = 0\<rparr>"
  by (simp add: parse_args_def add_argument_def example_cli_def)

lemma example_deployed:
  "deployed_address example_fs ''OracleController'' = Inr ''0xC0''"
  "deployed_address example_fs ''EvidenceRegistry'' = Inr ''0xC0''"
  by (simp_all add: deployed_address_def find_build_artifact_def example_fs_def
      example_artifact_def NETWORK_ID_def)

lemma example_connected: "is_connected example_w3"
  by (simp add: example_w3_def)

lemma build_Inr_cpts:
  assumes "build_bn_from_chain fs w3 BNOracle = Inr (bn, priors, cpts, reads)"
  shows "\<exists>table shown. map_of cpts ''GPS'' = Some table \<and> map_of table (1, 0) = Some shown"
proof -
  from assms have l: "load_priors_and_cpts_from_chain fs w3 = Inr (priors, cpts, reads)"
    by (auto simp: build_bn_from_chain_def split: sum.splits)
  from load_Inr_found[OF l] obtain a address where
    found: "find_build_artifact fs ''CPTStore'' = Inr a"
           "map_of (networks a) NETWORK_ID = Some address"
    by blast
  from load_closed[OF found, of w3] l show ?thesis by (auto simp: table_of_def)
qed

lemma main_engine_fails:
  assumes "parse_args c = Inr args" "is_connected w3" "accounts w3 = sender # others"
      and "build_bn_from_chain fs w3 BNOracle = Inr (bn, priors, cpts, reads)"
      and "bn (main_evidence args) = Inl e"
  shows "run_inference_and_log_main c fs w3 BNOracle contracts w = Inl e"
proof -
  from build_Inr_cpts[OF assms(4)] obtain table shown where
    "map_of cpts ''GPS'' = Some table" "map_of table (1, 0) = Some shown" by blast
  with assms show ?thesis
    unfolding run_inference_and_log_main_def by (simp add: Let_def)
qed

lemma main_engine_answers:
  assumes "parse_args c = Inr args" "is_connected w3" "accounts w3 = sender # others"
      and "build_bn_from_chain fs w3 BNOracle = Inr (bn, priors, cpts, reads)"
      and "bn (main_evidence args) = Inr post"
      and "deployed_address fs ''OracleController'' = Inr oc_addr"
      and "deployed_address fs ''EvidenceRegistry'' = Inr er_addr"
  shows "run_inference_and_log_main c fs w3 BNOracle contracts w =
     Inr (log_submitInference contracts (gps args) (pc args) (pmd args) (pr args)
            (scale_posterior (PPH post)) (scale_posterior (PPR post)) sender w,
          [LogInfer (main_evidence args),
           LogSubmit (gps args) (pc args) (pmd args) (pr args)
             (scale_posterior (PPH post)) (scale_posterior (PPR post)) sender,
           LogRead
             (lastEvidenceId contracts
                (log_submitInference contracts (gps args) (pc args) (pmd args) (pr args)
                   (scale_posterior (PPH post)) (scale_posterior (PPR post)) sender w))
             (getEvidence contracts
                (lastEvidenceId contracts
                   (log_submitInference contracts (gps args) (pc args) (pmd args) (pr args)
                      (scale_posterior (PPH post)) (scale_posterior (PPR post)) sender w))
                (log_submitInference contracts (gps args) (pc args) (pmd args) (pr args)
                   (scale_posterior (PPH post)) (scale_posterior (PPR post)) sender w))])"
proof -
  from build_Inr_cpts[OF assms(4)] obtain table shown where
    "map_of cpts ''GPS'' = Some table" "map_of table (1, 0) = Some shown" by blast
  with assms show ?thesis
    unfolding run_inference_and_log_main_def by (simp add: Let_def)
qed

lemma example_build_any:
  "build_bn_from_chain example_fs example_w3 B =
     Inr (B [(''PPH'', 3 / 10), (''PPR'', 2 / 5)]
            [(''GPS'', table_of example_store 0), (''PC'', table_of example_store 1),
             (''PMD'', table_of example_store 2), (''PR'', table_of example_store 3)],
          [(''PPH'', 3 / 10), (''PPR'', 2 / 5)],
          [(''GPS'', table_of example_store 0), (''PC'', table_of example_store 1),
           (''PMD'', table_of example_store 2), (''PR'', table_of example_store 3)],
          expected_reads)"
  by (simp add: build_bn_from_chain_def example_load)

lemma total_only_accepts:
  "total_only_bn [(''GPS'', 1), (''PC'', 0), (''PMD'', 0), (''PR'', 0)]
     = Inr \<lparr>PPH = 1 / 4, PPR = 1 / 2\<rparr>"
  by (simp add: total_only_bn_def EVIDENCE_NAMES_def)

lemma partial_only_refuses:
  "partial_only_bn [(''GPS'', 1), (''PC'', 0), (''PMD'', 0), (''PR'', 0)]
     = Inl DegenerateEvidenceError"
  by (simp add: partial_only_bn_def EVIDENCE_NAMES_def)

lemma example_args_evidence:
  "main_evidence \<lparr>gps = 1, pc = 0, pmd = 0, pr = 0\<rparr>
     = [(''GPS'', 1), (''PC'', 0), (''PMD'', 0), (''PR'', 0)]"
  by (simp add: main_evidence_def)

lemma example_total_main:
  "run_inference_and_log_main example_cli example_fs example_w3 total_only_BNOracle
     example_log_contracts [] =
   Inr ([(1, 0, 0, 0, 250000, 500000)],
        [LogInfer [(''GPS'', 1), (''PC'', 0), (''PMD'', 0), (''PR'', 0)],
         LogSubmit 1 0 0 0 250000 500000 ''0xA0'',
         LogRead 0 (1, 0, 0, 0, 250000, 500000)])"
  unfolding run_inference_and_log_main_def
  by (simp add: example_parse example_build_any example_deployed example_accounts
      example_connected total_only_BNOracle_def total_only_accepts example_args_evidence
      example_scaled table_of_def example_log_contracts_def
      example_log_submit_def example_last_id_def example_get_def Let_def)

text \<open>
  C10. For every command line the parser accepts, the driver's evidence dict assigns all
  four variables \<^verbatim>\<open>GPS\<close>, \<^verbatim>\<open>PC\<close>, \<^verbatim>\<open>PMD\<close>, \<^verbatim>\<open>PR\<close>, a variable not given on
  the command line having the value 0. The inference of a run is the engine's answer on
  that total dict and on no other: when the engine fails there the run fails with the
  engine's error, when it answers there the run submits the scaled answer, and every
  inference a returning run lists is on that dict.
\<close>

theorem single_shot_evidence_is_total:
  assumes "parse_args c = Inr args"
  shows "map fst (main_evidence args) = [''GPS'', ''PC'', ''PMD'', ''PR'']
     \<and> map_of (main_evidence args) ''GPS'' = Some (case given_gps c of None \<Rightarrow> 0 | Some v \<Rightarrow> v)
     \<and> map_of (main_evidence args) ''PC'' = Some (case given_pc c of None \<Rightarrow> 0 | Some v \<Rightarrow> v)
     \<and> map_of (main_evidence args) ''PMD'' = Some (case given_pmd c of None \<Rightarrow> 0 | Some v \<Rightarrow> v)
     \<and> map_of (main_evidence args) ''PR'' = Some (case given_pr c of None \<Rightarrow> 0 | Some v \<Rightarrow> v)
     \<and> (\<forall>fs w3 BNOracle (contracts :: 'w log_contracts) w w' calls ev.
           run_inference_and_log_main c fs w3 BNOracle contracts w = Inr (w', calls)
           \<and> LogInfer ev \<in> set calls \<longrightarrow> ev = main_evidence args)
     \<and> (\<forall>fs w3 BNOracle (contracts :: 'w log_contracts) w bn priors cpts reads sender others e.
           is_connected w3 \<and> accounts w3 = sender # others
           \<and> build_bn_from_chain fs w3 BNOracle = Inr (bn, priors, cpts, reads)
           \<and> bn (main_evidence args) = Inl e
           \<longrightarrow> run_inference_and_log_main c fs w3 BNOracle contracts w = Inl e)
     \<and> (\<forall>fs w3 BNOracle (contracts :: 'w log_contracts) w bn priors cpts reads sender others
            post oc_addr er_addr.
           is_connected w3 \<and> accounts w3 = sender # others
           \<and> build_bn_from_chain fs w3 BNOracle = Inr (bn, priors, cpts, reads)
           \<and> bn (main_evidence args) = Inr post
           \<and> deployed_address fs ''OracleController'' = Inr oc_addr
           \<and> deployed_address fs ''EvidenceRegistry'' = Inr er_addr
           \<longrightarrow> (\<exists>w' evidence_id stored.
                  run_inference_and_log_main c fs w3 BNOracle contracts w =
                    Inr (w', [LogInfer (main_evidence args),
                              LogSubmit (gps args) (pc args) (pmd args) (pr args)
                                (scale_posterior (PPH post)) (scale_posterior (PPR post)) sender,
                              LogRead evidence_id stored])))"
proof -
  from parse_args_fields[OF assms] have v:
    "map_of (main_evidence args) ''GPS'' = Some (case given_gps c of None \<Rightarrow> 0 | Some v \<Rightarrow> v)"
    "map_of (main_evidence args) ''PC'' = Some (case given_pc c of None \<Rightarrow> 0 | Some v \<Rightarrow> v)"
    "map_of (main_evidence args) ''PMD'' = Some (case given_pmd c of None \<Rightarrow> 0 | Some v \<Rightarrow> v)"
    "map_of (main_evidence args) ''PR'' = Some (case given_pr c of None \<Rightarrow> 0 | Some v \<Rightarrow> v)"
    by (simp_all add: main_evidence_def)
  have k: "map fst (main_evidence args) = [''GPS'', ''PC'', ''PMD'', ''PR'']"
    by (simp add: main_evidence_def)
  have logged: "\<forall>fs w3 BNOracle (contracts :: 'w log_contracts) w w' calls ev.
           run_inference_and_log_main c fs w3 BNOracle contracts w = Inr (w', calls)
           \<and> LogInfer ev \<in> set calls \<longrightarrow> ev = main_evidence args"
  proof (intro allI impI)
    fix fs w3 BNOracle and contracts :: "'w log_contracts" and w w' calls ev
    assume h: "run_inference_and_log_main c fs w3 BNOracle contracts w = Inr (w', calls)
           \<and> LogInfer ev \<in> set calls"
    then have run: "run_inference_and_log_main c fs w3 BNOracle contracts w = Inr (w', calls)"
      and inf: "LogInfer ev \<in> set calls" by simp_all
    from main_inversion[OF run] assms obtain a b sender i row where
      "calls = [LogInfer (main_evidence args),
                LogSubmit (gps args) (pc args) (pmd args) (pr args) a b sender,
                LogRead i row]"
      by auto
    with inf show "ev = main_evidence args" by auto
  qed
  have fails: "\<forall>fs w3 BNOracle (contracts :: 'w log_contracts) w bn priors cpts reads sender
          others e.
           is_connected w3 \<and> accounts w3 = sender # others
           \<and> build_bn_from_chain fs w3 BNOracle = Inr (bn, priors, cpts, reads)
           \<and> bn (main_evidence args) = Inl e
           \<longrightarrow> run_inference_and_log_main c fs w3 BNOracle contracts w = Inl e"
  proof (intro allI impI)
    fix fs w3 BNOracle and contracts :: "'w log_contracts"
      and w bn priors cpts reads sender others e
    assume h: "is_connected w3 \<and> accounts w3 = sender # others
           \<and> build_bn_from_chain fs w3 BNOracle = Inr (bn, priors, cpts, reads)
           \<and> bn (main_evidence args) = Inl e"
    then have h1: "is_connected w3" and h2: "accounts w3 = sender # others"
      and h3: "build_bn_from_chain fs w3 BNOracle = Inr (bn, priors, cpts, reads)"
      and h4: "bn (main_evidence args) = Inl e" by simp_all
    show "run_inference_and_log_main c fs w3 BNOracle contracts w = Inl e"
      by (rule main_engine_fails[OF assms h1 h2 h3 h4])
  qed
  have answers: "\<forall>fs w3 BNOracle (contracts :: 'w log_contracts) w bn priors cpts reads sender
            others post oc_addr er_addr.
           is_connected w3 \<and> accounts w3 = sender # others
           \<and> build_bn_from_chain fs w3 BNOracle = Inr (bn, priors, cpts, reads)
           \<and> bn (main_evidence args) = Inr post
           \<and> deployed_address fs ''OracleController'' = Inr oc_addr
           \<and> deployed_address fs ''EvidenceRegistry'' = Inr er_addr
           \<longrightarrow> (\<exists>w' evidence_id stored.
                  run_inference_and_log_main c fs w3 BNOracle contracts w =
                    Inr (w', [LogInfer (main_evidence args),
                              LogSubmit (gps args) (pc args) (pmd args) (pr args)
                                (scale_posterior (PPH post)) (scale_posterior (PPR post)) sender,
                              LogRead evidence_id stored]))"
  proof (intro allI impI)
    fix fs w3 BNOracle and contracts :: "'w log_contracts"
      and w bn priors cpts reads sender others post oc_addr er_addr
    assume h: "is_connected w3 \<and> accounts w3 = sender # others
           \<and> build_bn_from_chain fs w3 BNOracle = Inr (bn, priors, cpts, reads)
           \<and> bn (main_evidence args) = Inr post
           \<and> deployed_address fs ''OracleController'' = Inr oc_addr
           \<and> deployed_address fs ''EvidenceRegistry'' = Inr er_addr"
    then have h1: "is_connected w3" and h2: "accounts w3 = sender # others"
      and h3: "build_bn_from_chain fs w3 BNOracle = Inr (bn, priors, cpts, reads)"
      and h4: "bn (main_evidence args) = Inr post"
      and h5: "deployed_address fs ''OracleController'' = Inr oc_addr"
      and h6: "deployed_address fs ''EvidenceRegistry'' = Inr er_addr" by simp_all
    from main_engine_answers[OF assms h1 h2 h3 h4 h5 h6, of contracts w]
    show "\<exists>w' evidence_id stored.
                  run_inference_and_log_main c fs w3 BNOracle contracts w =
                    Inr (w', [LogInfer (main_evidence args),
                              LogSubmit (gps args) (pc args) (pmd args) (pr args)
                                (scale_posterior (PPH post)) (scale_posterior (PPR post)) sender,
                              LogRead evidence_id stored])"
      by blast
  qed
  from k v logged fails answers show ?thesis by (intro conjI)
qed

theorem single_shot_evidence_is_total_witness:
  "parse_args example_cli = Inr \<lparr>gps = 1, pc = 0, pmd = 0, pr = 0\<rparr>
   \<and> given_pc example_cli = None \<and> given_pmd example_cli = None \<and> given_pr example_cli = None
   \<and> main_evidence \<lparr>gps = 1, pc = 0, pmd = 0, pr = 0\<rparr>
       = [(''GPS'', 1), (''PC'', 0), (''PMD'', 0), (''PR'', 0)]
   \<and> map_of (main_evidence \<lparr>gps = 1, pc = 0, pmd = 0, pr = 0\<rparr>) ''PC'' = Some 0
   \<and> total_only_bn [(''GPS'', 1)] = Inl UnknownVariableError
   \<and> run_inference_and_log_main example_cli example_fs example_w3 total_only_BNOracle
        example_log_contracts [] =
      Inr ([(1, 0, 0, 0, 250000, 500000)],
        [LogInfer [(''GPS'', 1), (''PC'', 0), (''PMD'', 0), (''PR'', 0)],
         LogSubmit 1 0 0 0 250000 500000 ''0xA0'',
         LogRead 0 (1, 0, 0, 0, 250000, 500000)])
   \<and> partial_only_bn [(''GPS'', 1)] = Inr \<lparr>PPH = 1 / 4, PPR = 1 / 2\<rparr>
   \<and> partial_only_bn [] = Inr \<lparr>PPH = 1 / 4, PPR = 1 / 2\<rparr>
   \<and> run_inference_and_log_main example_cli example_fs example_w3 partial_only_BNOracle
        example_log_contracts [] = Inl DegenerateEvidenceError"
proof -
  note t = single_shot_evidence_is_total[OF example_parse]
  note fails = t[THEN conjunct2, THEN conjunct2, THEN conjunct2, THEN conjunct2,
                 THEN conjunct2, THEN conjunct2, THEN conjunct1, rule_format]
  have refused: "run_inference_and_log_main example_cli example_fs example_w3
      partial_only_BNOracle example_log_contracts [] = Inl DegenerateEvidenceError"
    by (rule fails[where sender = "''0xA0''" and others = "[''0xB0'']"
              and bn = partial_only_bn
              and priors = "[(''PPH'', 3 / 10), (''PPR'', 2 / 5)]"
              and cpts = "[(''GPS'', table_of example_store 0), (''PC'', table_of example_store 1),
                           (''PMD'', table_of example_store 2), (''PR'', table_of example_store 3)]"
              and reads = expected_reads])
       (simp add: example_connected example_accounts example_build_any
          partial_only_BNOracle_def example_args_evidence partial_only_refuses)
  note pc0 = t[THEN conjunct2, THEN conjunct2, THEN conjunct1]
  have none: "given_pc example_cli = None" "given_pmd example_cli = None"
    "given_pr example_cli = None" by (simp_all add: example_cli_def)
  from pc0 none refused example_total_main example_parse example_args_evidence
  show ?thesis
    by (simp add: total_only_bn_def partial_only_bn_def EVIDENCE_NAMES_def)
qed

end
